theory Spec2Isabelle
  imports Main
begin

section \<open>The blog's data model\<close>

text \<open>
  The views of \<^verbatim>\<open>blogicum/blog/views.py\<close> work on four tables through Django's ORM:
  users, categories, posts and comments.  Primary keys are natural numbers, timestamps
  are integers.  The location table is only joined by \<^verbatim>\<open>select_related\<close> and never
  filtered on, so it is left out.
\<close>

text \<open>
  Modelled from the spec: \<^verbatim>\<open>models.py\<close> is not among the sources, so the rows carry the
  fields that the spec's data model names and the views read.  A post has an author, a
  category and a location reference (both nullable here, which covers a schema where
  they are mandatory), a publication flag, a publication timestamp, a title and a body;
  a category has a slug and a publication flag; a comment has an author, a post, a body
  and a creation timestamp.
\<close>

record user =
  user_id :: nat
  username :: string
  first_name :: string
  last_name :: string
  email :: string
  password :: string

record category =
  category_id :: nat
  slug :: string
  category_is_published :: bool

record post =
  post_id :: nat
  post_author :: nat
  post_category :: "nat option"
  post_location :: "nat option"
  is_published :: bool
  pub_date :: int
  post_title :: string
  post_text :: string

record comment =
  comment_id :: nat
  comment_author :: nat
  comment_post :: nat
  comment_text :: string
  created_at :: int

record db =
  users :: "user list"
  categories :: "category list"
  posts :: "post list"
  comments :: "comment list"

text \<open>
  What the database itself guarantees: primary keys are unique in each table, and
  Django's user model declares \<^verbatim>\<open>username\<close> unique.
\<close>

definition db_constraints :: "db \<Rightarrow> bool" where
  "db_constraints d \<longleftrightarrow>
     distinct (map user_id (users d)) \<and>
     distinct (map username (users d)) \<and>
     distinct (map category_id (categories d)) \<and>
     distinct (map post_id (posts d)) \<and>
     distinct (map comment_id (comments d))"

text \<open>
  Modelled from the spec: the declaration of \<^verbatim>\<open>Category.slug\<close> is in the missing
  \<^verbatim>\<open>models.py\<close>; the spec speaks of the category of a slug, so a slug names at most
  one category.
\<close>

definition unique_slugs :: "db \<Rightarrow> bool" where
  "unique_slugs d \<longleftrightarrow> distinct (map slug (categories d))"

section \<open>Requests and responses\<close>

datatype http_method = GET | HEAD | POST | PUT | PATCH | DELETE | OPTIONS | TRACE

text \<open>
  \<^verbatim>\<open>request.GET.get('page')\<close> as Python's \<^verbatim>\<open>int()\<close> reads it inside the paginator:
  the parameter is absent (\<^verbatim>\<open>None\<close>, a \<^verbatim>\<open>TypeError\<close>), it is text that \<^verbatim>\<open>int()\<close>
  rejects (a \<^verbatim>\<open>ValueError\<close>), or it is the text of an integer.
\<close>

datatype page_param = PageAbsent | PageNotInt string | PageInt int

type_synonym post_data = "(string \<times> string) list"

text \<open>\<^verbatim>\<open>request.user\<close> is \<open>None\<close> for Django's \<^verbatim>\<open>AnonymousUser\<close>.\<close>

record request =
  req_method :: http_method
  req_user :: "user option"
  req_page :: page_param
  req_POST :: post_data

datatype error = Http404 | MultipleObjectsReturned | PageNotAnInteger | EmptyPage

record page =
  page_number :: int
  object_list :: "(post \<times> nat) list"
  paginator_num_pages :: int

datatype model_instance = NoInstance | UserInstance user | PostInstance post | CommentInstance comment

text \<open>
  A Django form: the model instance it edits, the submitted data (\<open>None\<close> for an
  unbound form) and the validation errors.
\<close>

datatype form = Form (form_instance: model_instance) (form_data: "post_data option") (form_errors: "string list")

datatype template_context =
    FormCtx form
  | PageCtx page
  | DetailCtx post "comment list" form
  | CategoryCtx category page
  | ProfileCtx user page
  | CommentFormCtx form comment post
  | CommentCtx comment post
  | ObjectFormCtx form post

datatype target = ToLogin | LoginRequiredRedirect | ToPostDetail nat | ToProfile string

datatype response =
    Render string template_context
  | Redirect target
  | HttpResponseNotAllowed "http_method list"
  | OptionsResponse

section \<open>Framework primitives\<close>

text \<open>
  \<^verbatim>\<open>get_object_or_404(queryset, **lookup)\<close> calls \<^verbatim>\<open>queryset.get\<close>: no row is
  \<^verbatim>\<open>Http404\<close>, one row is returned, several rows raise \<^verbatim>\<open>MultipleObjectsReturned\<close>.
\<close>

definition get_object_or_404 :: "'a list \<Rightarrow> ('a \<Rightarrow> bool) \<Rightarrow> error + 'a" where
  "get_object_or_404 queryset lookup =
     (case filter lookup queryset of
        [] \<Rightarrow> Inl Http404
      | [x] \<Rightarrow> Inr x
      | _ \<Rightarrow> Inl MultipleObjectsReturned)"

text \<open>\<^verbatim>\<open>Paginator.num_pages\<close> with no orphans and an empty first page allowed.\<close>

definition num_pages :: "'a list \<Rightarrow> int \<Rightarrow> int" where
  "num_pages xs per_page =
     (let hits = max 1 (int (length xs)) in (hits + per_page - 1) div per_page)"

definition validate_number :: "'a list \<Rightarrow> int \<Rightarrow> page_param \<Rightarrow> error + int" where
  "validate_number xs per_page number =
     (case number of
        PageAbsent \<Rightarrow> Inl PageNotAnInteger
      | PageNotInt _ \<Rightarrow> Inl PageNotAnInteger
      | PageInt n \<Rightarrow>
          if n < 1 then Inl EmptyPage
          else if n > num_pages xs per_page then Inl EmptyPage
          else Inr n)"

text \<open>
  \<^verbatim>\<open>Paginator.page\<close>: validate, then slice \<^verbatim>\<open>object_list[bottom:top]\<close>, where
  \<^verbatim>\<open>top\<close> is cut back to the count on the last page.
\<close>

definition paginator_page :: "(post \<times> nat) list \<Rightarrow> int \<Rightarrow> int \<Rightarrow> error + page" where
  "paginator_page xs per_page number =
     (case validate_number xs per_page (PageInt number) of
        Inl e \<Rightarrow> Inl e
      | Inr n \<Rightarrow>
          let bottom = (n - 1) * per_page;
              top = (if bottom + per_page \<ge> int (length xs) then int (length xs)
                     else bottom + per_page)
          in Inr \<lparr> page_number = n,
                   object_list = take (nat (top - bottom)) (drop (nat bottom) xs),
                   paginator_num_pages = num_pages xs per_page \<rparr>)"

text \<open>
  \<^verbatim>\<open>Paginator.get_page\<close>: a page that is not an integer becomes the first page, a
  page out of range becomes the last one.
\<close>

definition get_page :: "(post \<times> nat) list \<Rightarrow> int \<Rightarrow> page_param \<Rightarrow> error + page" where
  "get_page xs per_page number =
     paginator_page xs per_page
       (case validate_number xs per_page number of
          Inl PageNotAnInteger \<Rightarrow> 1
        | Inl _ \<Rightarrow> num_pages xs per_page
        | Inr n \<Rightarrow> n)"

definition is_authenticated :: "request \<Rightarrow> bool" where
  "is_authenticated request \<longleftrightarrow> req_user request \<noteq> None"

text \<open>
  \<^verbatim>\<open>request.user == u\<close>: Django compares model instances by primary key, and an
  anonymous user equals no row of the user table.
\<close>

definition user_is :: "request \<Rightarrow> nat \<Rightarrow> bool" where
  "user_is request uid = (case req_user request of None \<Rightarrow> False | Some u \<Rightarrow> user_id u = uid)"

section \<open>Querysets\<close>

text \<open>\<^verbatim>\<open>category__is_published=True\<close>: the join with the category table.\<close>

definition category__is_published :: "db \<Rightarrow> post \<Rightarrow> bool" where
  "category__is_published d p =
     (case post_category p of
        None \<Rightarrow> False
      | Some cid \<Rightarrow> \<exists>c \<in> set (categories d). category_id c = cid \<and> category_is_published c)"

text \<open>\<^verbatim>\<open>Count('comments')\<close>: the number of comment rows that point to the post.\<close>

definition comment_count :: "db \<Rightarrow> nat \<Rightarrow> nat" where
  "comment_count d pid = length (filter (\<lambda>c. comment_post c = pid) (comments d))"

definition annotate :: "db \<Rightarrow> post list \<Rightarrow> (post \<times> nat) list" where
  "annotate d ps = map (\<lambda>p. (p, comment_count d (post_id p))) ps"

text \<open>
  \<^verbatim>\<open>order_by('-pub_date')\<close>: newest first; rows of equal date stay in table order
  (the database leaves their order open).
\<close>

definition order_by_pub_date_desc :: "(post \<times> nat) list \<Rightarrow> (post \<times> nat) list" where
  "order_by_pub_date_desc xs = sort_key (\<lambda>x. - pub_date (fst x)) xs"

section \<open>The read-only views\<close>

definition index_post_list :: "db \<Rightarrow> int \<Rightarrow> (post \<times> nat) list" where
  "index_post_list d now =
     order_by_pub_date_desc (annotate d
       (filter (\<lambda>p. is_published p \<and> category__is_published d p \<and> pub_date p \<le> now) (posts d)))"

definition index :: "db \<Rightarrow> int \<Rightarrow> request \<Rightarrow> error + response" where
  "index d now request =
     (case get_page (index_post_list d now) 10 (req_page request) of
        Inl e \<Rightarrow> Inl e
      | Inr page_obj \<Rightarrow> Inr (Render ''blog/index.html'' (PageCtx page_obj)))"

definition post_detail :: "db \<Rightarrow> int \<Rightarrow> request \<Rightarrow> nat \<Rightarrow> error + response" where
  "post_detail d now request pk =
     (case (if is_authenticated request
            then get_object_or_404
                   (filter (\<lambda>p. (is_published p \<and> category__is_published d p \<and> pub_date p \<le> now)
                                 \<or> user_is request (post_author p)) (posts d))
                   (\<lambda>p. post_id p = pk)
            else get_object_or_404
                   (filter (\<lambda>p. is_published p \<and> category__is_published d p \<and> pub_date p \<le> now)
                      (posts d))
                   (\<lambda>p. post_id p = pk)) of
        Inl e \<Rightarrow> Inl e
      | Inr p \<Rightarrow>
          let comments = filter (\<lambda>c. comment_post c = post_id p) (comments d);
              form = Form NoInstance None []
          in Inr (Render ''blog/detail.html'' (DetailCtx p comments form)))"

definition category_post_list :: "db \<Rightarrow> int \<Rightarrow> category \<Rightarrow> (post \<times> nat) list" where
  "category_post_list d now c =
     order_by_pub_date_desc (annotate d
       (filter (\<lambda>p. post_category p = Some (category_id c) \<and> is_published p \<and> pub_date p \<le> now)
          (posts d)))"

definition category_posts :: "db \<Rightarrow> int \<Rightarrow> request \<Rightarrow> string \<Rightarrow> error + response" where
  "category_posts d now request category_slug =
     (case get_object_or_404 (filter category_is_published (categories d))
             (\<lambda>c. slug c = category_slug) of
        Inl e \<Rightarrow> Inl e
      | Inr c \<Rightarrow>
          (case get_page (category_post_list d now c) 10 (req_page request) of
             Inl e \<Rightarrow> Inl e
           | Inr page_obj \<Rightarrow> Inr (Render ''blog/category.html'' (CategoryCtx c page_obj))))"

definition profile_post_list :: "db \<Rightarrow> int \<Rightarrow> request \<Rightarrow> user \<Rightarrow> (post \<times> nat) list" where
  "profile_post_list d now request author =
     (if user_is request (user_id author)
      then order_by_pub_date_desc (annotate d
             (filter (\<lambda>p. post_author p = user_id author) (posts d)))
      else order_by_pub_date_desc (annotate d
             (filter (\<lambda>p. post_author p = user_id author \<and> is_published p
                           \<and> category__is_published d p \<and> pub_date p \<le> now) (posts d))))"

definition profile :: "db \<Rightarrow> int \<Rightarrow> request \<Rightarrow> string \<Rightarrow> error + response" where
  "profile d now request name =
     (case get_object_or_404 (users d) (\<lambda>u. username u = name) of
        Inl e \<Rightarrow> Inl e
      | Inr author \<Rightarrow>
          (case get_page (profile_post_list d now request author) 10 (req_page request) of
             Inl e \<Rightarrow> Inl e
           | Inr page_obj \<Rightarrow> Inr (Render ''blog/profile.html'' (ProfileCtx author page_obj))))"

section \<open>Forms\<close>

text \<open>
  \<^verbatim>\<open>forms.py\<close> is not among the sources, and \<^verbatim>\<open>UserCreationForm\<close> is Django's.  The
  views only ask a form whether it is valid and let it write the cleaned fields onto a
  model instance, so the forms are a parameter of the views: for each form the list of
  validation errors (\<^verbatim>\<open>is_valid()\<close> holds when it is empty) and the instance it
  constructs from the submitted data (\<open>None\<close> stands for a new, unsaved instance).
\<close>

record forms =
  UserCreationForm_errors :: "db \<Rightarrow> post_data \<Rightarrow> string list"
  UserCreationForm_construct :: "post_data \<Rightarrow> user"
  UserEditForm_errors :: "db \<Rightarrow> user \<Rightarrow> post_data \<Rightarrow> string list"
  UserEditForm_construct :: "post_data \<Rightarrow> user \<Rightarrow> user"
  PostForm_errors :: "db \<Rightarrow> post option \<Rightarrow> post_data \<Rightarrow> string list"
  PostForm_construct :: "post_data \<Rightarrow> post option \<Rightarrow> post"
  CommentForm_errors :: "post_data \<Rightarrow> string list"
  CommentForm_construct :: "post_data \<Rightarrow> comment option \<Rightarrow> comment"

section \<open>Saving and deleting rows\<close>

text \<open>The key the database gives a new row: one more than the largest key in use.\<close>

definition fresh_pk :: "nat list \<Rightarrow> nat" where
  "fresh_pk pks = Suc (fold max pks 0)"

text \<open>
  \<^verbatim>\<open>Model.save()\<close> on an instance that has a primary key: the row with this key is
  replaced; if there is none the instance is inserted.
\<close>

definition save_row :: "('a \<Rightarrow> nat) \<Rightarrow> 'a \<Rightarrow> 'a list \<Rightarrow> 'a list" where
  "save_row pk x rows =
     (if pk x \<in> set (map pk rows) then map (\<lambda>r. if pk r = pk x then x else r) rows
      else rows @ [x])"

section \<open>The views that write\<close>

definition login_redirect :: "db \<Rightarrow> (error + response) \<times> db" where
  "login_redirect d = (Inr (Redirect LoginRequiredRedirect), d)"

definition registration :: "forms \<Rightarrow> db \<Rightarrow> request \<Rightarrow> (error + response) \<times> db" where
  "registration F d request =
     (if req_method request = POST then
        let errors = UserCreationForm_errors F d (req_POST request) in
        if errors = [] then
          (Inr (Redirect ToLogin),
           d\<lparr> users := users d @
                [(UserCreationForm_construct F (req_POST request))
                   \<lparr> user_id := fresh_pk (map user_id (users d)) \<rparr>] \<rparr>)
        else
          (Inr (Render ''registration/registration_form.html''
                  (FormCtx (Form NoInstance (Some (req_POST request)) errors))), d)
      else
        (Inr (Render ''registration/registration_form.html''
                (FormCtx (Form NoInstance None []))), d))"

definition edit_profile :: "forms \<Rightarrow> db \<Rightarrow> request \<Rightarrow> (error + response) \<times> db" where
  "edit_profile F d request =
     (case req_user request of
        None \<Rightarrow> login_redirect d
      | Some u \<Rightarrow>
          if req_method request = POST then
            let errors = UserEditForm_errors F d u (req_POST request);
                u' = (UserEditForm_construct F (req_POST request) u)\<lparr> user_id := user_id u \<rparr>
            in if errors = [] then
                 (Inr (Redirect (ToProfile (username u'))),
                  d\<lparr> users := save_row user_id u' (users d) \<rparr>)
               else
                 (Inr (Render ''blog/user.html''
                         (FormCtx (Form (UserInstance u') (Some (req_POST request)) errors))), d)
          else
            (Inr (Render ''blog/user.html'' (FormCtx (Form (UserInstance u) None []))), d))"

text \<open>
  The generic views.  \<^verbatim>\<open>LoginRequiredMixin.dispatch\<close> redirects an anonymous user to the
  login page and otherwise goes on to \<^verbatim>\<open>View.dispatch\<close>, which picks the handler by HTTP
  method: \<^verbatim>\<open>get\<close> (also for HEAD) renders the form, \<^verbatim>\<open>post\<close> (also for PUT) processes it,
  OPTIONS is answered by the framework and any other method is not allowed.
\<close>

definition PostCreateView :: "forms \<Rightarrow> db \<Rightarrow> request \<Rightarrow> (error + response) \<times> db" where
  "PostCreateView F d request =
     (case req_user request of
        None \<Rightarrow> login_redirect d
      | Some u \<Rightarrow>
          if req_method request \<in> {GET, HEAD} then
            (Inr (Render ''blog/create.html'' (FormCtx (Form NoInstance None []))), d)
          else if req_method request \<in> {POST, PUT} then
            let errors = PostForm_errors F d None (req_POST request) in
            if errors = [] then
              (Inr (Redirect (ToProfile (username u))),
               d\<lparr> posts := posts d @
                    [(PostForm_construct F (req_POST request) None)
                       \<lparr> post_id := fresh_pk (map post_id (posts d)),
                         post_author := user_id u \<rparr>] \<rparr>)
            else
              (Inr (Render ''blog/create.html''
                      (FormCtx (Form NoInstance (Some (req_POST request)) errors))), d)
          else if req_method request = OPTIONS then (Inr OptionsResponse, d)
          else (Inr (HttpResponseNotAllowed [GET, POST, PUT, HEAD, OPTIONS]), d))"

text \<open>
  \<^verbatim>\<open>PostUpdateView.dispatch\<close> overrides the mixin's: it fetches the post and compares
  its author with \<^verbatim>\<open>request.user\<close> first, and only then calls \<^verbatim>\<open>super().dispatch\<close>,
  where the login check of \<^verbatim>\<open>LoginRequiredMixin\<close> sits.
\<close>

definition PostUpdateView :: "forms \<Rightarrow> db \<Rightarrow> request \<Rightarrow> nat \<Rightarrow> (error + response) \<times> db" where
  "PostUpdateView F d request pk =
     (case get_object_or_404 (posts d) (\<lambda>p. post_id p = pk) of
        Inl e \<Rightarrow> (Inl e, d)
      | Inr p \<Rightarrow>
          if \<not> user_is request (post_author p) then
            (Inr (Redirect (ToPostDetail (post_id p))), d)
          else
            (case req_user request of
               None \<Rightarrow> login_redirect d
             | Some u \<Rightarrow>
                 if req_method request \<in> {GET, HEAD} then
                   (Inr (Render ''blog/create.html''
                           (ObjectFormCtx (Form (PostInstance p) None []) p)), d)
                 else if req_method request \<in> {POST, PUT} then
                   let errors = PostForm_errors F d (Some p) (req_POST request);
                       p' = (PostForm_construct F (req_POST request) (Some p))
                              \<lparr> post_id := post_id p \<rparr>
                   in if errors = [] then
                        (Inr (Redirect (ToPostDetail (post_id p'))),
                         d\<lparr> posts := save_row post_id p' (posts d) \<rparr>)
                      else
                        (Inr (Render ''blog/create.html''
                                (ObjectFormCtx
                                   (Form (PostInstance p') (Some (req_POST request)) errors) p')), d)
                 else if req_method request = OPTIONS then (Inr OptionsResponse, d)
                 else (Inr (HttpResponseNotAllowed [GET, POST, PUT, HEAD, OPTIONS]), d)))"

text \<open>
  Modelled from the spec: the comment model is in the missing \<^verbatim>\<open>models.py\<close>; comments
  are owned by their post, so deleting a post deletes its comments with it (cascade).
\<close>

definition delete_post :: "db \<Rightarrow> post \<Rightarrow> db" where
  "delete_post d p =
     d\<lparr> posts := filter (\<lambda>q. post_id q \<noteq> post_id p) (posts d),
        comments := filter (\<lambda>c. comment_post c \<noteq> post_id p) (comments d) \<rparr>"

definition PostDeleteView :: "forms \<Rightarrow> db \<Rightarrow> request \<Rightarrow> nat \<Rightarrow> (error + response) \<times> db" where
  "PostDeleteView F d request pk =
     (case get_object_or_404 (posts d) (\<lambda>p. post_id p = pk) of
        Inl e \<Rightarrow> (Inl e, d)
      | Inr p \<Rightarrow>
          if \<not> user_is request (post_author p) then
            (Inr (Redirect (ToPostDetail (post_id p))), d)
          else
            (case req_user request of
               None \<Rightarrow> login_redirect d
             | Some u \<Rightarrow>
                 if req_method request \<in> {GET, HEAD} then
                   (Inr (Render ''blog/detail.html''
                           (ObjectFormCtx (Form NoInstance None []) p)), d)
                 else if req_method request \<in> {POST, DELETE} then
                   (Inr (Redirect (ToProfile (username u))), delete_post d p)
                 else if req_method request = OPTIONS then (Inr OptionsResponse, d)
                 else (Inr (HttpResponseNotAllowed [GET, POST, DELETE, HEAD, OPTIONS]), d)))"

text \<open>
  \<^verbatim>\<open>add_comment\<close> is wrapped by \<^verbatim>\<open>login_required\<close> (outermost) and by
  \<^verbatim>\<open>require_http_methods(['POST'])\<close>.  A new comment gets a fresh key, and (the spec's
  data model: creation timestamps are defaults of the data layer) the time of saving as
  its creation timestamp.
\<close>

definition add_comment :: "forms \<Rightarrow> db \<Rightarrow> int \<Rightarrow> request \<Rightarrow> nat \<Rightarrow> (error + response) \<times> db" where
  "add_comment F d now request pk =
     (case req_user request of
        None \<Rightarrow> login_redirect d
      | Some u \<Rightarrow>
          if req_method request \<notin> set [POST] then (Inr (HttpResponseNotAllowed [POST]), d)
          else
            (case get_object_or_404 (posts d) (\<lambda>p. post_id p = pk) of
               Inl e \<Rightarrow> (Inl e, d)
             | Inr p \<Rightarrow>
                 if CommentForm_errors F (req_POST request) = [] then
                   (Inr (Redirect (ToPostDetail pk)),
                    d\<lparr> comments := comments d @
                         [(CommentForm_construct F (req_POST request) None)
                            \<lparr> comment_id := fresh_pk (map comment_id (comments d)),
                              comment_author := user_id u,
                              comment_post := post_id p,
                              created_at := now \<rparr>] \<rparr>)
                 else (Inr (Redirect (ToPostDetail pk)), d)))"

definition edit_comment :: "forms \<Rightarrow> db \<Rightarrow> request \<Rightarrow> nat \<Rightarrow> nat \<Rightarrow> (error + response) \<times> db" where
  "edit_comment F d request pk cid =
     (case req_user request of
        None \<Rightarrow> login_redirect d
      | Some u \<Rightarrow>
          (case get_object_or_404 (posts d) (\<lambda>p. post_id p = pk) of
             Inl e \<Rightarrow> (Inl e, d)
           | Inr p \<Rightarrow>
               (case get_object_or_404 (comments d)
                       (\<lambda>c. comment_id c = cid \<and> comment_post c = post_id p) of
                  Inl e \<Rightarrow> (Inl e, d)
                | Inr c \<Rightarrow>
                    if \<not> user_is request (comment_author c) then
                      (Inr (Redirect (ToPostDetail pk)), d)
                    else if req_method request = POST then
                      let errors = CommentForm_errors F (req_POST request);
                          c' = (CommentForm_construct F (req_POST request) (Some c))
                                 \<lparr> comment_id := comment_id c \<rparr>
                      in if errors = [] then
                           (Inr (Redirect (ToPostDetail pk)),
                            d\<lparr> comments := save_row comment_id c' (comments d) \<rparr>)
                         else
                           (Inr (Render ''blog/comment.html''
                                   (CommentFormCtx
                                      (Form (CommentInstance c') (Some (req_POST request)) errors)
                                      c' p)), d)
                    else
                      (Inr (Render ''blog/comment.html''
                              (CommentFormCtx (Form (CommentInstance c) None []) c p)), d))))"

definition delete_comment :: "db \<Rightarrow> request \<Rightarrow> nat \<Rightarrow> nat \<Rightarrow> (error + response) \<times> db" where
  "delete_comment d request pk cid =
     (case req_user request of
        None \<Rightarrow> login_redirect d
      | Some u \<Rightarrow>
          (case get_object_or_404 (posts d) (\<lambda>p. post_id p = pk) of
             Inl e \<Rightarrow> (Inl e, d)
           | Inr p \<Rightarrow>
               (case get_object_or_404 (comments d)
                       (\<lambda>c. comment_id c = cid \<and> comment_post c = post_id p) of
                  Inl e \<Rightarrow> (Inl e, d)
                | Inr c \<Rightarrow>
                    if \<not> user_is request (comment_author c) then
                      (Inr (Redirect (ToPostDetail pk)), d)
                    else if req_method request = POST then
                      (Inr (Redirect (ToPostDetail pk)),
                       d\<lparr> comments := filter (\<lambda>r. comment_id r \<noteq> comment_id c) (comments d) \<rparr>)
                    else
                      (Inr (Render ''blog/comment.html'' (CommentCtx c p)), d))))"

section \<open>A small blog to run the views on\<close>

definition alice :: user where
  "alice = \<lparr> user_id = 1, username = ''alice'', first_name = ''Alice'', last_name = ''A'',
             email = ''alice@example.org'', password = ''x'' \<rparr>"

definition bob :: user where
  "bob = \<lparr> user_id = 2, username = ''bob'', first_name = ''Bob'', last_name = ''B'',
           email = ''bob@example.org'', password = ''y'' \<rparr>"

definition travel :: category where
  "travel = \<lparr> category_id = 1, slug = ''travel'', category_is_published = True \<rparr>"

definition news :: category where
  "news = \<lparr> category_id = 2, slug = ''news'', category_is_published = False \<rparr>"

definition post1 :: post where
  "post1 = \<lparr> post_id = 1, post_author = 1, post_category = Some 1, post_location = None,
             is_published = True, pub_date = 10, post_title = ''Hills'', post_text = ''a'' \<rparr>"

text \<open>An unpublished post of alice's.\<close>

definition post2 :: post where
  "post2 = \<lparr> post_id = 2, post_author = 1, post_category = Some 1, post_location = None,
             is_published = False, pub_date = 20, post_title = ''Draft'', post_text = ''b'' \<rparr>"

text \<open>A published post of bob's in the unpublished category.\<close>

definition post3 :: post where
  "post3 = \<lparr> post_id = 3, post_author = 2, post_category = Some 2, post_location = None,
             is_published = True, pub_date = 5, post_title = ''Flash'', post_text = ''c'' \<rparr>"

text \<open>A post of alice's that is dated in the future.\<close>

definition post4 :: post where
  "post4 = \<lparr> post_id = 4, post_author = 1, post_category = Some 1, post_location = None,
             is_published = True, pub_date = 1000, post_title = ''Soon'', post_text = ''d'' \<rparr>"

definition comment1 :: comment where
  "comment1 = \<lparr> comment_id = 1, comment_author = 2, comment_post = 1,
                comment_text = ''nice'', created_at = 11 \<rparr>"

definition comment2 :: comment where
  "comment2 = \<lparr> comment_id = 2, comment_author = 1, comment_post = 1,
                comment_text = ''thanks'', created_at = 12 \<rparr>"

definition comment3 :: comment where
  "comment3 = \<lparr> comment_id = 3, comment_author = 1, comment_post = 3,
                comment_text = ''hm'', created_at = 13 \<rparr>"

definition db0 :: db where
  "db0 = \<lparr> users = [alice, bob], categories = [travel, news],
           posts = [post1, post2, post3, post4],
           comments = [comment1, comment2, comment3] \<rparr>"

text \<open>
  Forms for the small blog: a field is required and must not be empty; a user name
  must be free.
\<close>

definition field :: "post_data \<Rightarrow> string \<Rightarrow> string" where
  "field data k = (case map_of data k of None \<Rightarrow> [] | Some v \<Rightarrow> v)"

definition required :: "post_data \<Rightarrow> string \<Rightarrow> string list" where
  "required data k = (if field data k = [] then [k @ '': required''] else [])"

definition forms0 :: forms where
  "forms0 = \<lparr>
     UserCreationForm_errors = (\<lambda>d data.
        required data ''username'' @
        (if field data ''username'' \<in> set (map username (users d))
         then [''username: taken''] else [])),
     UserCreationForm_construct = (\<lambda>data.
        \<lparr> user_id = 0, username = field data ''username'', first_name = [], last_name = [],
          email = [], password = field data ''password1'' \<rparr>),
     UserEditForm_errors = (\<lambda>d u data. required data ''username''),
     UserEditForm_construct = (\<lambda>data u.
        if field data ''username'' = [] then u else u\<lparr> username := field data ''username'' \<rparr>),
     PostForm_errors = (\<lambda>d p data. required data ''title''),
     PostForm_construct = (\<lambda>data p.
        (case p of
           None \<Rightarrow> \<lparr> post_id = 0, post_author = 0, post_category = None, post_location = None,
                     is_published = True, pub_date = 0, post_title = field data ''title'',
                     post_text = field data ''text'' \<rparr>
         | Some q \<Rightarrow> q\<lparr> post_title := field data ''title'', post_text := field data ''text'' \<rparr>)),
     CommentForm_errors = (\<lambda>data. required data ''text''),
     CommentForm_construct = (\<lambda>data c.
        (case c of
           None \<Rightarrow> \<lparr> comment_id = 0, comment_author = 0, comment_post = 0,
                     comment_text = field data ''text'', created_at = 0 \<rparr>
         | Some q \<Rightarrow> if field data ''text'' = [] then q
                     else q\<lparr> comment_text := field data ''text'' \<rparr>)) \<rparr>"

definition request0 :: "http_method \<Rightarrow> user option \<Rightarrow> request" where
  "request0 m u = \<lparr> req_method = m, req_user = u, req_page = PageAbsent, req_POST = [] \<rparr>"

text \<open>A second blog, in which alice has eleven published posts, one more than a page holds.\<close>

definition post_n :: "nat \<Rightarrow> post" where
  "post_n i = \<lparr> post_id = i, post_author = 1, post_category = Some 1, post_location = None,
               is_published = True, pub_date = int i, post_title = ''n'', post_text = ''e'' \<rparr>"

definition db11 :: db where
  "db11 = \<lparr> users = [alice, bob], categories = [travel, news],
            posts = map post_n [1, 2, 3, 4, 5, 6, 7, 8, 9, 10, 11], comments = [] \<rparr>"

section \<open>Reading a response\<close>

text \<open>The posts on the \<^verbatim>\<open>page_obj\<close> that a listing view hands to its template.\<close>

fun listed_posts :: "error + response \<Rightarrow> post list" where
  "listed_posts (Inr (Render t (PageCtx pg))) = map fst (object_list pg)"
| "listed_posts (Inr (Render t (CategoryCtx c pg))) = map fst (object_list pg)"
| "listed_posts (Inr (Render t (ProfileCtx a pg))) = map fst (object_list pg)"
| "listed_posts _ = []"

section \<open>Lookups and pages\<close>

lemma filter_key_unique:
  "distinct (map pk q) \<Longrightarrow> x \<in> set q \<Longrightarrow> Q x \<Longrightarrow> filter (\<lambda>r. Q r \<and> pk r = pk x) q = [x]"
proof (induction q)
  case Nil
  then show ?case by simp
next
  case (Cons y ys)
  show ?case
  proof (cases "y = x")
    case True
    have "pk x \<notin> pk ` set ys" using Cons.prems(1) True by simp
    then have "\<forall>r \<in> set ys. pk r \<noteq> pk x" by (metis imageI)
    then have "filter (\<lambda>r. Q r \<and> pk r = pk x) ys = []"
      by (simp add: filter_empty_conv)
    with True Cons.prems(3) show ?thesis by simp
  next
    case False
    then have xin: "x \<in> set ys" using Cons.prems(2) by simp
    have "pk y \<notin> pk ` set ys" using Cons.prems(1) by simp
    with xin have "pk y \<noteq> pk x" by force
    moreover have "filter (\<lambda>r. Q r \<and> pk r = pk x) ys = [x]"
      using Cons.IH Cons.prems(1,3) xin by simp
    ultimately show ?thesis by simp
  qed
qed

lemma get_object_or_404_single:
  "filter P q = [x] \<Longrightarrow> get_object_or_404 q P = Inr x"
  by (simp add: get_object_or_404_def)

lemma get_object_or_404_none:
  "\<forall>r \<in> set q. \<not> P r \<Longrightarrow> get_object_or_404 q P = Inl Http404"
proof -
  assume "\<forall>r \<in> set q. \<not> P r"
  then have "filter P q = []" by (simp add: filter_empty_conv)
  then show ?thesis by (simp add: get_object_or_404_def)
qed

lemma get_object_or_404_Inr:
  "get_object_or_404 q P = Inr x \<Longrightarrow> x \<in> set q \<and> P x"
proof -
  assume a: "get_object_or_404 q P = Inr x"
  then have "filter P q = [x]"
    by (auto simp: get_object_or_404_def split: list.splits)
  then have "x \<in> set (filter P q)" by simp
  then show ?thesis by simp
qed

lemma get_by_key:
  "distinct (map pk q) \<Longrightarrow> x \<in> set q \<Longrightarrow> get_object_or_404 q (\<lambda>r. pk r = pk x) = Inr x"
  using filter_key_unique [of pk q x "\<lambda>_. True"]
  by (simp add: get_object_or_404_single)

lemma get_by_key_in_filter:
  "distinct (map pk q) \<Longrightarrow> x \<in> set q \<Longrightarrow> Q x \<Longrightarrow>
   get_object_or_404 (filter Q q) (\<lambda>r. pk r = pk x) = Inr x"
  using filter_key_unique [of pk q x Q]
  by (simp add: get_object_or_404_single)

lemma get_by_key_and:
  "distinct (map pk q) \<Longrightarrow> x \<in> set q \<Longrightarrow> Q x \<Longrightarrow>
   get_object_or_404 q (\<lambda>r. pk r = pk x \<and> Q r) = Inr x"
proof -
  assume a: "distinct (map pk q)" "x \<in> set q" "Q x"
  have "(\<lambda>r. pk r = pk x \<and> Q r) = (\<lambda>r. Q r \<and> pk r = pk x)" by auto
  with filter_key_unique [of pk q x Q] a show ?thesis
    by (simp add: get_object_or_404_single)
qed

lemma num_pages_ge_1: "1 \<le> num_pages xs 10"
  by (simp add: num_pages_def Let_def)

lemma paginator_page_valid:
  assumes "1 \<le> k" "k \<le> num_pages xs 10"
  shows "paginator_page xs 10 k =
     Inr \<lparr> page_number = k, object_list = take 10 (drop (nat ((k - 1) * 10)) xs),
           paginator_num_pages = num_pages xs 10 \<rparr>"
proof -
  let ?b = "(k - 1) * 10"
  have "take (nat ((if ?b + 10 \<ge> int (length xs) then int (length xs) else ?b + 10) - ?b))
          (drop (nat ?b) xs) = take 10 (drop (nat ?b) xs)"
  proof (cases "?b + 10 \<ge> int (length xs)")
    case True
    have "length (drop (nat ?b) xs) \<le> nat (int (length xs) - ?b)" using assms(1) by simp
    moreover have "length (drop (nat ?b) xs) \<le> 10" using True assms(1) by simp
    ultimately show ?thesis using True by simp
  next
    case False
    then show ?thesis by simp
  qed
  then show ?thesis using assms
    by (simp add: paginator_page_def validate_number_def Let_def)
qed

lemma get_page_number:
  "\<exists>k. 1 \<le> k \<and> k \<le> num_pages xs 10 \<and> get_page xs 10 number = paginator_page xs 10 k
       \<and> (\<forall>n. number = PageInt n \<and> 1 \<le> n \<and> n \<le> num_pages xs 10 \<longrightarrow> k = n)
       \<and> (\<forall>n. number = PageInt n \<and> n > num_pages xs 10 \<longrightarrow> k = num_pages xs 10)
       \<and> (number = PageAbsent \<longrightarrow> k = 1)"
  using num_pages_ge_1 [of xs]
  by (cases number) (auto simp: get_page_def validate_number_def)

lemma nth_on_its_page:
  assumes "i < length xs"
  shows "1 \<le> int (i div 10) + 1" "int (i div 10) + 1 \<le> num_pages xs 10"
    "xs ! i \<in> set (take 10 (drop (nat ((int (i div 10) + 1 - 1) * 10)) xs))"
proof -
  show "1 \<le> int (i div 10) + 1" by simp
  show "int (i div 10) + 1 \<le> num_pages xs 10"
    using assms by (simp add: num_pages_def Let_def max_def)
  have m: "nat ((int (i div 10) + 1 - 1) * 10) = 10 * (i div 10)" by simp
  have le: "10 * (i div 10) \<le> i" by simp
  have "i - 10 * (i div 10) < 10" by presburger
  moreover have "i - 10 * (i div 10) < length (drop (10 * (i div 10)) xs)"
    using assms le by simp
  ultimately have "(take 10 (drop (10 * (i div 10)) xs)) ! (i - 10 * (i div 10)) = xs ! i"
    and "i - 10 * (i div 10) < length (take 10 (drop (10 * (i div 10)) xs))"
    using le by simp_all
  then show "xs ! i \<in> set (take 10 (drop (nat ((int (i div 10) + 1 - 1) * 10)) xs))"
    unfolding m by (metis nth_mem)
qed

lemma set_order_by_pub_date_desc [simp]: "set (order_by_pub_date_desc xs) = set xs"
  by (simp add: order_by_pub_date_desc_def)

lemma length_order_by_pub_date_desc [simp]: "length (order_by_pub_date_desc xs) = length xs"
  by (simp add: order_by_pub_date_desc_def)

lemma fst_set_annotate [simp]: "fst ` set (annotate d ps) = set ps"
  by (force simp: annotate_def)

lemma get_page_total:
  "\<exists>pg. get_page xs 10 number = Inr pg"
  using get_page_number [of xs number] paginator_page_valid [of _ xs] by metis

lemma get_page_subset:
  assumes "get_page xs 10 number = Inr pg"
  shows "set (object_list pg) \<subseteq> set xs" "length (object_list pg) \<le> 10"
proof -
  obtain k where k: "1 \<le> k" "k \<le> num_pages xs 10" "get_page xs 10 number = paginator_page xs 10 k"
    using get_page_number [of xs number] by blast
  with assms paginator_page_valid [OF k(1,2)]
  have ol: "object_list pg = take 10 (drop (nat ((k - 1) * 10)) xs)" by auto
  show "set (object_list pg) \<subseteq> set xs"
    unfolding ol using set_take_subset set_drop_subset by fast
  show "length (object_list pg) \<le> 10" unfolding ol by simp
qed

lemma category__is_published_iff:
  "category__is_published d p \<longleftrightarrow>
     (\<exists>c \<in> set (categories d). post_category p = Some (category_id c) \<and> category_is_published c)"
  by (auto simp: category__is_published_def split: option.splits)

lemma listed_index:
  "set (listed_posts (index d now request)) \<subseteq>
     {p \<in> set (posts d). is_published p \<and> category__is_published d p \<and> pub_date p \<le> now}"
proof -
  obtain pg where pg: "get_page (index_post_list d now) 10 (req_page request) = Inr pg"
    using get_page_total by blast
  then have "set (listed_posts (index d now request)) = fst ` set (object_list pg)"
    by (simp add: index_def)
  also have "\<dots> \<subseteq> fst ` set (index_post_list d now)"
    using get_page_subset(1) [OF pg] by blast
  also have "\<dots> = {p \<in> set (posts d). is_published p \<and> category__is_published d p \<and> pub_date p \<le> now}"
    by (auto simp: index_post_list_def)
  finally show ?thesis .
qed

lemma listed_category_posts:
  assumes "p \<in> set (listed_posts (category_posts d now request s))"
  shows "\<exists>c \<in> set (categories d). category_is_published c \<and> slug c = s \<and>
           p \<in> set (posts d) \<and> post_category p = Some (category_id c) \<and> is_published p \<and> pub_date p \<le> now"
proof (cases "get_object_or_404 (filter category_is_published (categories d)) (\<lambda>c. slug c = s)")
  case (Inl e)
  with assms show ?thesis by (simp add: category_posts_def)
next
  case (Inr c)
  then have c: "c \<in> set (categories d)" "category_is_published c" "slug c = s"
    using get_object_or_404_Inr [OF Inr] by auto
  obtain pg where pg: "get_page (category_post_list d now c) 10 (req_page request) = Inr pg"
    using get_page_total by blast
  with Inr assms have "p \<in> fst ` set (object_list pg)" by (simp add: category_posts_def)
  then have "p \<in> fst ` set (category_post_list d now c)"
    using get_page_subset(1) [OF pg] by blast
  then have "p \<in> set (posts d) \<and> post_category p = Some (category_id c) \<and> is_published p \<and> pub_date p \<le> now"
    by (auto simp: category_post_list_def)
  with c show ?thesis by blast
qed

lemma listed_profile:
  assumes "p \<in> set (listed_posts (profile d now request name))"
  shows "\<exists>a \<in> set (users d). username a = name \<and> p \<in> set (posts d) \<and> post_author p = user_id a \<and>
           (\<not> user_is request (user_id a) \<longrightarrow>
              is_published p \<and> category__is_published d p \<and> pub_date p \<le> now)"
proof (cases "get_object_or_404 (users d) (\<lambda>u. username u = name)")
  case (Inl e)
  with assms show ?thesis by (simp add: profile_def)
next
  case (Inr a)
  then have a: "a \<in> set (users d)" "username a = name"
    using get_object_or_404_Inr [OF Inr] by auto
  obtain pg where pg: "get_page (profile_post_list d now request a) 10 (req_page request) = Inr pg"
    using get_page_total by blast
  with Inr assms have "p \<in> fst ` set (object_list pg)" by (simp add: profile_def)
  then have "p \<in> fst ` set (profile_post_list d now request a)"
    using get_page_subset(1) [OF pg] by blast
  then have "p \<in> set (posts d) \<and> post_author p = user_id a \<and>
           (\<not> user_is request (user_id a) \<longrightarrow>
              is_published p \<and> category__is_published d p \<and> pub_date p \<le> now)"
    by (auto simp: profile_post_list_def split: if_splits)
  with a show ?thesis by blast
qed

text \<open>
  C1.  A post on the page returned by \<^verbatim>\<open>index\<close>, by \<^verbatim>\<open>category_posts\<close>, or by
  \<^verbatim>\<open>profile\<close> when the viewer is not the user the profile belongs to, is published, its
  publication date is not after the time of the query, and its category is published.
\<close>

theorem listed_posts_are_public:
  assumes "p \<in> set (listed_posts (index d now request))
         \<or> p \<in> set (listed_posts (category_posts d now request category_slug))
         \<or> (p \<in> set (listed_posts (profile d now request name))
            \<and> \<not> (\<exists>a \<in> set (users d). username a = name \<and> user_is request (user_id a)))"
  shows "is_published p \<and> pub_date p \<le> now \<and>
         (\<exists>c \<in> set (categories d). post_category p = Some (category_id c) \<and> category_is_published c)"
  using assms
proof (elim disjE conjE)
  assume "p \<in> set (listed_posts (index d now request))"
  then show ?thesis using listed_index [of d now request]
    by (auto simp: category__is_published_iff)
next
  assume "p \<in> set (listed_posts (category_posts d now request category_slug))"
  from listed_category_posts [OF this] show ?thesis by blast
next
  assume "p \<in> set (listed_posts (profile d now request name))"
    and no: "\<not> (\<exists>a \<in> set (users d). username a = name \<and> user_is request (user_id a))"
  from listed_profile [OF this(1)] no show ?thesis
    by (auto simp: category__is_published_iff)
qed

theorem listed_posts_are_public_witness:
  "listed_posts (index db0 100 (request0 GET None)) = [post1]
   \<and> listed_posts (category_posts db0 100 (request0 GET (Some bob)) ''travel'') = [post1]
   \<and> listed_posts (profile db0 100 (request0 GET (Some bob)) ''alice'') = [post1]
   \<and> \<not> (\<exists>a \<in> set (users db0). username a = ''alice'' \<and> user_is (request0 GET (Some bob)) (user_id a))
   \<and> is_published post1 \<and> pub_date post1 \<le> 100
   \<and> (\<exists>c \<in> set (categories db0). post_category post1 = Some (category_id c) \<and> category_is_published c)"
proof -
  have 1: "listed_posts (index db0 100 (request0 GET None)) = [post1]" by code_simp
  have 2: "listed_posts (category_posts db0 100 (request0 GET (Some bob)) ''travel'') = [post1]"
    by code_simp
  have 3: "listed_posts (profile db0 100 (request0 GET (Some bob)) ''alice'') = [post1]"
    by code_simp
  have 4: "\<not> (\<exists>a \<in> set (users db0). username a = ''alice'' \<and> user_is (request0 GET (Some bob)) (user_id a))"
    by code_simp
  have "post1 \<in> set (listed_posts (index db0 100 (request0 GET None)))" using 1 by simp
  note a = listed_posts_are_public [of post1 db0 100 "request0 GET None" "''travel''" "''alice''",
      OF disjI1, OF this]
  have "post1 \<in> set (listed_posts (category_posts db0 100 (request0 GET (Some bob)) ''travel''))"
    using 2 by simp
  note b = listed_posts_are_public [of post1 db0 100 "request0 GET (Some bob)" "''travel''" "''alice''",
      OF disjI2, OF disjI1, OF this]
  have "post1 \<in> set (listed_posts (profile db0 100 (request0 GET (Some bob)) ''alice''))"
    using 3 by simp
  note c = listed_posts_are_public [of post1 db0 100 "request0 GET (Some bob)" "''travel''" "''alice''",
      OF disjI2, OF disjI2, OF conjI, OF this 4]
  show ?thesis using 1 2 3 4 a b c by simp
qed

text \<open>
  C8.  \<^verbatim>\<open>category_posts\<close> answers not-found for a slug that no category has and for
  a slug whose category is not published; so it does for the unpublished category with
  the slug \<open>news\<close>.
\<close>

theorem unknown_or_unpublished_category_not_found:
  assumes "unique_slugs d"
    and "(\<forall>c \<in> set (categories d). slug c \<noteq> category_slug)
         \<or> (\<exists>c \<in> set (categories d). slug c = category_slug \<and> \<not> category_is_published c)"
  shows "category_posts d now request category_slug = Inl Http404"
proof -
  have "\<forall>c \<in> set (filter category_is_published (categories d)). slug c \<noteq> category_slug"
    using assms(2)
  proof
    assume "\<forall>c \<in> set (categories d). slug c \<noteq> category_slug"
    then show ?thesis by simp
  next
    assume "\<exists>c \<in> set (categories d). slug c = category_slug \<and> \<not> category_is_published c"
    then obtain c where c: "c \<in> set (categories d)" "slug c = category_slug"
      "\<not> category_is_published c" by blast
    show ?thesis
    proof
      fix c' assume "c' \<in> set (filter category_is_published (categories d))"
      then have c': "c' \<in> set (categories d)" "category_is_published c'" by simp_all
      show "slug c' \<noteq> category_slug"
      proof
        assume "slug c' = category_slug"
        with c(2) have "slug c' = slug c" by simp
        with assms(1) c(1) c'(1) have "c' = c"
          by (auto simp: unique_slugs_def distinct_map dest: inj_onD)
        with c(3) c'(2) show False by simp
      qed
    qed
  qed
  then have "get_object_or_404 (filter category_is_published (categories d))
               (\<lambda>c. slug c = category_slug) = Inl Http404"
    by (intro get_object_or_404_none) simp
  then show ?thesis by (simp add: category_posts_def)
qed

theorem unknown_or_unpublished_category_not_found_witness:
  "unique_slugs db0
   \<and> (\<exists>c \<in> set (categories db0). slug c = ''news'' \<and> \<not> category_is_published c)
   \<and> category_posts db0 100 (request0 GET None) ''news'' = Inl Http404
   \<and> \<not> (\<exists>c \<in> set (categories db0). slug c = ''sport'')
   \<and> category_posts db0 100 (request0 GET None) ''sport'' = Inl Http404"
proof -
  have u: "unique_slugs db0" by code_simp
  have n: "\<exists>c \<in> set (categories db0). slug c = ''news'' \<and> \<not> category_is_published c"
    by code_simp
  have s: "\<forall>c \<in> set (categories db0). slug c \<noteq> ''sport''" by code_simp
  from unknown_or_unpublished_category_not_found [OF u disjI2, OF n]
    unknown_or_unpublished_category_not_found [OF u disjI1, OF s] u n s
  show ?thesis by simp
qed

text \<open>
  C9.  When \<^verbatim>\<open>post_detail\<close> returns a post, the comments in its context are exactly
  the comment rows that point to this post: nothing is filtered by the comment's author
  or by who is looking, signed in or not.
\<close>

theorem post_detail_shows_all_comments:
  assumes "post_detail d now request pk = Inr (Render t (DetailCtx p cs f))"
  shows "post_id p = pk \<and> cs = filter (\<lambda>c. comment_post c = pk) (comments d)
         \<and> (\<forall>c. c \<in> set cs \<longleftrightarrow> c \<in> set (comments d) \<and> comment_post c = post_id p)"
proof -
  let ?V = "\<lambda>p. is_published p \<and> category__is_published d p \<and> pub_date p \<le> now"
  let ?q = "if is_authenticated request
            then get_object_or_404 (filter (\<lambda>p. ?V p \<or> user_is request (post_author p)) (posts d))
                   (\<lambda>p. post_id p = pk)
            else get_object_or_404 (filter ?V (posts d)) (\<lambda>p. post_id p = pk)"
  from assms obtain p' where p': "?q = Inr p'"
    by (cases ?q) (simp_all add: post_detail_def)
  with assms have eq: "p = p'" "cs = filter (\<lambda>c. comment_post c = post_id p') (comments d)"
    by (auto simp: post_detail_def Let_def)
  have "post_id p' = pk"
    using p' get_object_or_404_Inr [of _ "\<lambda>p. post_id p = pk" p']
    by (auto split: if_splits)
  with eq show ?thesis by auto
qed

theorem post_detail_shows_all_comments_witness:
  "post_detail db0 100 (request0 GET None) 1 =
     Inr (Render ''blog/detail.html'' (DetailCtx post1 [comment1, comment2] (Form NoInstance None [])))
   \<and> post_id post1 = 1
   \<and> [comment1, comment2] = filter (\<lambda>c. comment_post c = 1) (comments db0)
   \<and> (\<forall>c. c \<in> set [comment1, comment2] \<longleftrightarrow> c \<in> set (comments db0) \<and> comment_post c = post_id post1)
   \<and> comment_author comment1 \<noteq> comment_author comment2"
proof -
  have e: "post_detail db0 100 (request0 GET None) 1 =
     Inr (Render ''blog/detail.html'' (DetailCtx post1 [comment1, comment2] (Form NoInstance None [])))"
    by code_simp
  have a: "comment_author comment1 \<noteq> comment_author comment2" by code_simp
  from post_detail_shows_all_comments [OF e] e a show ?thesis by simp
qed

lemma db_constraints_posts: "db_constraints d \<Longrightarrow> distinct (map post_id (posts d))"
  by (simp add: db_constraints_def)

lemma db_constraints_comments: "db_constraints d \<Longrightarrow> distinct (map comment_id (comments d))"
  by (simp add: db_constraints_def)

lemma db_constraints_usernames: "db_constraints d \<Longrightarrow> distinct (map username (users d))"
  by (simp add: db_constraints_def)

lemma user_is_Some [simp]: "req_user request = Some u \<Longrightarrow> user_is request k \<longleftrightarrow> user_id u = k"
  by (simp add: user_is_def)

lemma user_is_None [simp]: "req_user request = None \<Longrightarrow> \<not> user_is request k"
  by (simp add: user_is_def)

text \<open>
  C3.  A signed-in user who is not the author of the post (of the comment) that the
  request addresses gets a redirect to the post's detail page from the post update and
  delete views (from \<^verbatim>\<open>edit_comment\<close> and \<^verbatim>\<open>delete_comment\<close>), whatever the method
  and the submitted data, and the whole data store stays as it was.
\<close>

theorem non_author_mutation_is_noop:
  assumes "db_constraints d" and "req_user request = Some u" and "p \<in> set (posts d)"
  shows "(post_author p \<noteq> user_id u \<longrightarrow>
            PostUpdateView F d request (post_id p) = (Inr (Redirect (ToPostDetail (post_id p))), d)
          \<and> PostDeleteView F d request (post_id p) = (Inr (Redirect (ToPostDetail (post_id p))), d))
       \<and> (c \<in> set (comments d) \<and> comment_post c = post_id p \<and> comment_author c \<noteq> user_id u \<longrightarrow>
            edit_comment F d request (post_id p) (comment_id c)
              = (Inr (Redirect (ToPostDetail (post_id p))), d)
          \<and> delete_comment d request (post_id p) (comment_id c)
              = (Inr (Redirect (ToPostDetail (post_id p))), d))"
proof -
  have gp: "get_object_or_404 (posts d) (\<lambda>q. post_id q = post_id p) = Inr p"
    using get_by_key [OF db_constraints_posts [OF assms(1)] assms(3)] .
  have post_part: "PostUpdateView F d request (post_id p) = (Inr (Redirect (ToPostDetail (post_id p))), d)
      \<and> PostDeleteView F d request (post_id p) = (Inr (Redirect (ToPostDetail (post_id p))), d)"
    if "post_author p \<noteq> user_id u"
    using that gp assms(2) by (simp add: PostUpdateView_def PostDeleteView_def)
  have comment_part: "edit_comment F d request (post_id p) (comment_id c)
              = (Inr (Redirect (ToPostDetail (post_id p))), d)
          \<and> delete_comment d request (post_id p) (comment_id c)
              = (Inr (Redirect (ToPostDetail (post_id p))), d)"
    if c: "c \<in> set (comments d)" "comment_post c = post_id p" "comment_author c \<noteq> user_id u"
  proof -
    have gc: "get_object_or_404 (comments d)
                (\<lambda>r. comment_id r = comment_id c \<and> comment_post r = post_id p) = Inr c"
      using get_by_key_and [OF db_constraints_comments [OF assms(1)] c(1),
          of "\<lambda>r. comment_post r = post_id p"] c(2) by simp
    show ?thesis using gp gc assms(2) c(3)
      by (simp add: edit_comment_def delete_comment_def)
  qed
  from post_part comment_part show ?thesis by blast
qed

theorem non_author_mutation_is_noop_witness:
  "db_constraints db0 \<and> post1 \<in> set (posts db0) \<and> post_author post1 \<noteq> user_id bob
   \<and> comment2 \<in> set (comments db0) \<and> comment_post comment2 = post_id post1
   \<and> comment_author comment2 \<noteq> user_id bob
   \<and> PostUpdateView forms0 db0 (request0 POST (Some bob)) 1 = (Inr (Redirect (ToPostDetail 1)), db0)
   \<and> PostDeleteView forms0 db0 (request0 POST (Some bob)) 1 = (Inr (Redirect (ToPostDetail 1)), db0)
   \<and> edit_comment forms0 db0 (request0 POST (Some bob)) 1 2 = (Inr (Redirect (ToPostDetail 1)), db0)
   \<and> delete_comment db0 (request0 POST (Some bob)) 1 2 = (Inr (Redirect (ToPostDetail 1)), db0)"
proof -
  have h: "db_constraints db0" "req_user (request0 POST (Some bob)) = Some bob"
    "post1 \<in> set (posts db0)" by code_simp+
  have k: "post_author post1 \<noteq> user_id bob" "comment2 \<in> set (comments db0)"
    "comment_post comment2 = post_id post1" "comment_author comment2 \<noteq> user_id bob"
    "post_id post1 = 1" "comment_id comment2 = 2"
    by code_simp+
  from non_author_mutation_is_noop [OF h, where c = comment2 and F = forms0] h k show ?thesis by simp
qed

text \<open>
  C10.  For a signed-in user, \<^verbatim>\<open>edit_comment\<close> and \<^verbatim>\<open>delete_comment\<close> answer not-found
  and leave the data store as it was when the comment with the given key belongs to
  another post than the one with the given key, when no post has the given key, and when
  no comment has the given key.
\<close>

theorem comment_of_other_post_not_found:
  assumes "db_constraints d" and "req_user request = Some u"
    and "(\<exists>c \<in> set (comments d). comment_id c = cid \<and> comment_post c \<noteq> pk)
         \<or> (\<forall>p \<in> set (posts d). post_id p \<noteq> pk)
         \<or> (\<forall>c \<in> set (comments d). comment_id c \<noteq> cid)"
  shows "edit_comment F d request pk cid = (Inl Http404, d)
       \<and> delete_comment d request pk cid = (Inl Http404, d)"
proof (cases "get_object_or_404 (posts d) (\<lambda>p. post_id p = pk)")
  case (Inl e)
  have "e = Http404"
  proof (cases "\<exists>p \<in> set (posts d). post_id p = pk")
    case True
    then obtain p where p: "p \<in> set (posts d)" "post_id p = pk" by blast
    from get_by_key [OF db_constraints_posts [OF assms(1)] p(1)] p(2) Inl
    show ?thesis by simp
  next
    case False
    then have "get_object_or_404 (posts d) (\<lambda>p. post_id p = pk) = Inl Http404"
      by (intro get_object_or_404_none) simp
    with Inl show ?thesis by simp
  qed
  with Inl assms(2) show ?thesis by (simp add: edit_comment_def delete_comment_def)
next
  case (Inr p)
  then have p: "p \<in> set (posts d)" "post_id p = pk"
    using get_object_or_404_Inr [OF Inr] by simp_all
  have none: "\<forall>c \<in> set (comments d). \<not> (comment_id c = cid \<and> comment_post c = post_id p)"
  proof
    fix c assume c: "c \<in> set (comments d)"
    show "\<not> (comment_id c = cid \<and> comment_post c = post_id p)"
    proof
      assume a: "comment_id c = cid \<and> comment_post c = post_id p"
      from assms(3) p a c obtain c' where c': "c' \<in> set (comments d)" "comment_id c' = cid"
        "comment_post c' \<noteq> pk" by blast
      have "inj_on comment_id (set (comments d))"
        using db_constraints_comments [OF assms(1)] by (simp add: distinct_map)
      with c c' a have "c' = c" by (auto dest: inj_onD)
      with c'(3) a p(2) show False by simp
    qed
  qed
  have "get_object_or_404 (comments d) (\<lambda>c. comment_id c = cid \<and> comment_post c = post_id p)
          = Inl Http404"
    using get_object_or_404_none [OF none] .
  with Inr assms(2) show ?thesis by (simp add: edit_comment_def delete_comment_def)
qed

theorem comment_of_other_post_not_found_witness:
  "db_constraints db0
   \<and> (\<exists>c \<in> set (comments db0). comment_id c = 3 \<and> comment_post c \<noteq> 1)
   \<and> edit_comment forms0 db0 (request0 POST (Some alice)) 1 3 = (Inl Http404, db0)
   \<and> delete_comment db0 (request0 POST (Some alice)) 1 3 = (Inl Http404, db0)
   \<and> \<not> (\<exists>p \<in> set (posts db0). post_id p = 9)
   \<and> edit_comment forms0 db0 (request0 POST (Some alice)) 9 3 = (Inl Http404, db0)
   \<and> delete_comment db0 (request0 POST (Some alice)) 9 3 = (Inl Http404, db0)
   \<and> \<not> (\<exists>c \<in> set (comments db0). comment_id c = 7)
   \<and> edit_comment forms0 db0 (request0 POST (Some alice)) 1 7 = (Inl Http404, db0)
   \<and> delete_comment db0 (request0 POST (Some alice)) 1 7 = (Inl Http404, db0)"
proof -
  have h: "db_constraints db0" "req_user (request0 POST (Some alice)) = Some alice"
    by code_simp+
  have a: "\<exists>c \<in> set (comments db0). comment_id c = 3 \<and> comment_post c \<noteq> 1" by code_simp
  have b: "\<forall>p \<in> set (posts db0). post_id p \<noteq> 9" by code_simp
  have c: "\<forall>c \<in> set (comments db0). comment_id c \<noteq> 7" by code_simp
  from comment_of_other_post_not_found [OF h disjI1, OF a, where F = forms0]
    comment_of_other_post_not_found [OF h disjI2, OF disjI1, OF b, where cid = 3 and F = forms0]
    comment_of_other_post_not_found [OF h disjI2, OF disjI2, OF c, where pk = 1 and F = forms0]
    h a b c
  show ?thesis by simp
qed

lemma num_pages_10: "num_pages xs 10 = max 1 ((int (length xs) + 9) div 10)"
  by (simp add: num_pages_def Let_def max_def) presburger

lemma last_page_offset:
  "nat ((num_pages xs 10 - 1) * 10) = 10 * ((length xs - 1) div 10)"
proof (cases "length xs")
  case 0
  then show ?thesis by (simp add: num_pages_def)
next
  case (Suc m)
  have "(10 + int m) div 10 = int (m div 10) + 1" by (simp add: zdiv_int)
  then have "num_pages xs 10 = int (m div 10) + 1"
    using Suc by (simp add: num_pages_def Let_def max_def add.commute)
  then show ?thesis using Suc by simp
qed

lemma last_page_rows:
  "take 10 (drop (nat ((num_pages xs 10 - 1) * 10)) xs) = drop (10 * ((length xs - 1) div 10)) xs"
proof -
  have "length xs - 10 * ((length xs - 1) div 10) \<le> 10" by presburger
  then show ?thesis unfolding last_page_offset by simp
qed

lemma last_page_empty_iff:
  "drop (10 * ((length xs - 1) div 10)) xs = [] \<longleftrightarrow> xs = []"
proof (cases xs)
  case Nil
  then show ?thesis by simp
next
  case (Cons a list)
  then have "10 * ((length xs - 1) div 10) < length xs" by simp
  with Cons show ?thesis by simp
qed

lemma get_page_rows:
  "\<exists>pg. get_page xs 10 number = Inr pg
      \<and> length (object_list pg) \<le> 10
      \<and> paginator_num_pages pg = max 1 ((int (length xs) + 9) div 10)
      \<and> (\<forall>n. number = PageInt n \<and> 1 \<le> n \<and> n \<le> max 1 ((int (length xs) + 9) div 10) \<longrightarrow>
            page_number pg = n \<and> object_list pg = take 10 (drop (10 * nat (n - 1)) xs))
      \<and> (\<forall>n. number = PageInt n \<and> max 1 ((int (length xs) + 9) div 10) < n \<longrightarrow>
            page_number pg = max 1 ((int (length xs) + 9) div 10)
            \<and> object_list pg = drop (10 * ((length xs - 1) div 10)) xs
            \<and> (object_list pg = [] \<longleftrightarrow> xs = []))"
proof -
  obtain k where k: "1 \<le> k" "k \<le> num_pages xs 10"
    "get_page xs 10 number = paginator_page xs 10 k"
    "\<forall>n. number = PageInt n \<and> 1 \<le> n \<and> n \<le> num_pages xs 10 \<longrightarrow> k = n"
    "\<forall>n. number = PageInt n \<and> n > num_pages xs 10 \<longrightarrow> k = num_pages xs 10"
    using get_page_number [of xs number] by blast
  let ?pg = "\<lparr> page_number = k, object_list = take 10 (drop (nat ((k - 1) * 10)) xs),
           paginator_num_pages = num_pages xs 10 \<rparr>"
  have pg: "get_page xs 10 number = Inr ?pg"
    using k(3) paginator_page_valid [OF k(1,2)] by simp
  have a: "length (object_list ?pg) \<le> 10" by simp
  have b: "paginator_num_pages ?pg = max 1 ((int (length xs) + 9) div 10)"
    by (simp add: num_pages_10)
  have c: "page_number ?pg = n \<and> object_list ?pg = take 10 (drop (10 * nat (n - 1)) xs)"
    if "number = PageInt n \<and> 1 \<le> n \<and> n \<le> max 1 ((int (length xs) + 9) div 10)" for n
  proof -
    from that k(4) have "k = n" by (simp add: num_pages_10)
    moreover have "nat ((n - 1) * 10) = 10 * nat (n - 1)" using that by simp
    ultimately show ?thesis by simp
  qed
  have e: "page_number ?pg = max 1 ((int (length xs) + 9) div 10)
            \<and> object_list ?pg = drop (10 * ((length xs - 1) div 10)) xs
            \<and> (object_list ?pg = [] \<longleftrightarrow> xs = [])"
    if "number = PageInt n \<and> max 1 ((int (length xs) + 9) div 10) < n" for n
  proof -
    from that k(5) have kn: "k = num_pages xs 10" by (simp add: num_pages_10)
    then have "object_list ?pg = drop (10 * ((length xs - 1) div 10)) xs"
      using last_page_rows [of xs] by simp
    with kn show ?thesis using last_page_empty_iff [of xs] by (simp add: num_pages_10)
  qed
  from pg a b c e show ?thesis by blast
qed

lemma page_of_view:
  assumes "view = (case get_page L 10 number of Inl e \<Rightarrow> Inl e | Inr pg \<Rightarrow> Inr (wrap pg))"
  shows "\<exists>pg. view = Inr (wrap pg)
      \<and> length (object_list pg) \<le> 10
      \<and> paginator_num_pages pg = max 1 ((int (length L) + 9) div 10)
      \<and> (\<forall>n. number = PageInt n \<and> 1 \<le> n \<and> n \<le> max 1 ((int (length L) + 9) div 10) \<longrightarrow>
            page_number pg = n \<and> object_list pg = take 10 (drop (10 * nat (n - 1)) L))
      \<and> (\<forall>n. number = PageInt n \<and> max 1 ((int (length L) + 9) div 10) < n \<longrightarrow>
            page_number pg = max 1 ((int (length L) + 9) div 10)
            \<and> object_list pg = drop (10 * ((length L - 1) div 10)) L
            \<and> (object_list pg = [] \<longleftrightarrow> L = []))"
proof -
  from get_page_rows [of L number] obtain pg where pg: "get_page L 10 number = Inr pg"
    and rest: "length (object_list pg) \<le> 10
      \<and> paginator_num_pages pg = max 1 ((int (length L) + 9) div 10)
      \<and> (\<forall>n. number = PageInt n \<and> 1 \<le> n \<and> n \<le> max 1 ((int (length L) + 9) div 10) \<longrightarrow>
            page_number pg = n \<and> object_list pg = take 10 (drop (10 * nat (n - 1)) L))
      \<and> (\<forall>n. number = PageInt n \<and> max 1 ((int (length L) + 9) div 10) < n \<longrightarrow>
            page_number pg = max 1 ((int (length L) + 9) div 10)
            \<and> object_list pg = drop (10 * ((length L - 1) div 10)) L
            \<and> (object_list pg = [] \<longleftrightarrow> L = []))"
    by blast
  from assms pg have "view = Inr (wrap pg)" by simp
  with rest show ?thesis by blast
qed

text \<open>
  C7, as the code has it.  \<^verbatim>\<open>index\<close> always renders a page, and so do
  \<^verbatim>\<open>category_posts\<close> and \<^verbatim>\<open>profile\<close> once the category or the user is found.
  Whatever the page parameter, the page has at most 10 posts, and the paginator counts
  one page for every 10 rows of the listing, and one page for an empty listing.  A page
  number within that count gives the rows of that page.  A page number above it gives the
  last page, not an error: its rows are the rows of the listing after the last full ten,
  and they are empty exactly when the listing is empty.
\<close>

theorem pages_hold_at_most_ten_and_clamp:
  "(\<exists>pg. index d now request = Inr (Render ''blog/index.html'' (PageCtx pg))
        \<and> length (object_list pg) \<le> 10
        \<and> paginator_num_pages pg = max 1 ((int (length (index_post_list d now)) + 9) div 10)
        \<and> (\<forall>n. req_page request = PageInt n \<and> 1 \<le> n
                 \<and> n \<le> max 1 ((int (length (index_post_list d now)) + 9) div 10) \<longrightarrow>
              page_number pg = n
              \<and> object_list pg = take 10 (drop (10 * nat (n - 1)) (index_post_list d now)))
        \<and> (\<forall>n. req_page request = PageInt n
                 \<and> max 1 ((int (length (index_post_list d now)) + 9) div 10) < n \<longrightarrow>
              page_number pg = max 1 ((int (length (index_post_list d now)) + 9) div 10)
              \<and> object_list pg
                  = drop (10 * ((length (index_post_list d now) - 1) div 10)) (index_post_list d now)
              \<and> (object_list pg = [] \<longleftrightarrow> index_post_list d now = [])))
   \<and> (get_object_or_404 (filter category_is_published (categories d))
         (\<lambda>c. slug c = category_slug) = Inr c \<longrightarrow>
       (\<exists>pg. category_posts d now request category_slug
                = Inr (Render ''blog/category.html'' (CategoryCtx c pg))
           \<and> length (object_list pg) \<le> 10
           \<and> paginator_num_pages pg
               = max 1 ((int (length (category_post_list d now c)) + 9) div 10)
           \<and> (\<forall>n. req_page request = PageInt n \<and> 1 \<le> n
                    \<and> n \<le> max 1 ((int (length (category_post_list d now c)) + 9) div 10) \<longrightarrow>
                 page_number pg = n
                 \<and> object_list pg = take 10 (drop (10 * nat (n - 1)) (category_post_list d now c)))
           \<and> (\<forall>n. req_page request = PageInt n
                    \<and> max 1 ((int (length (category_post_list d now c)) + 9) div 10) < n \<longrightarrow>
                 page_number pg = max 1 ((int (length (category_post_list d now c)) + 9) div 10)
                 \<and> object_list pg
                     = drop (10 * ((length (category_post_list d now c) - 1) div 10))
                         (category_post_list d now c)
                 \<and> (object_list pg = [] \<longleftrightarrow> category_post_list d now c = []))))
   \<and> (get_object_or_404 (users d) (\<lambda>u. username u = name) = Inr a \<longrightarrow>
       (\<exists>pg. profile d now request name = Inr (Render ''blog/profile.html'' (ProfileCtx a pg))
           \<and> length (object_list pg) \<le> 10
           \<and> paginator_num_pages pg
               = max 1 ((int (length (profile_post_list d now request a)) + 9) div 10)
           \<and> (\<forall>n. req_page request = PageInt n \<and> 1 \<le> n
                    \<and> n \<le> max 1 ((int (length (profile_post_list d now request a)) + 9) div 10)
                  \<longrightarrow>
                 page_number pg = n
                 \<and> object_list pg
                     = take 10 (drop (10 * nat (n - 1)) (profile_post_list d now request a)))
           \<and> (\<forall>n. req_page request = PageInt n
                    \<and> max 1 ((int (length (profile_post_list d now request a)) + 9) div 10) < n
                  \<longrightarrow>
                 page_number pg
                   = max 1 ((int (length (profile_post_list d now request a)) + 9) div 10)
                 \<and> object_list pg
                     = drop (10 * ((length (profile_post_list d now request a) - 1) div 10))
                         (profile_post_list d now request a)
                 \<and> (object_list pg = [] \<longleftrightarrow> profile_post_list d now request a = []))))"
proof (intro conjI impI)
  have "index d now request =
          (case get_page (index_post_list d now) 10 (req_page request) of
             Inl e \<Rightarrow> Inl e
           | Inr pg \<Rightarrow> Inr (Render ''blog/index.html'' (PageCtx pg)))"
    by (simp add: index_def)
  from page_of_view [OF this]
  show "\<exists>pg. index d now request = Inr (Render ''blog/index.html'' (PageCtx pg))
        \<and> length (object_list pg) \<le> 10
        \<and> paginator_num_pages pg = max 1 ((int (length (index_post_list d now)) + 9) div 10)
        \<and> (\<forall>n. req_page request = PageInt n \<and> 1 \<le> n
                 \<and> n \<le> max 1 ((int (length (index_post_list d now)) + 9) div 10) \<longrightarrow>
              page_number pg = n
              \<and> object_list pg = take 10 (drop (10 * nat (n - 1)) (index_post_list d now)))
        \<and> (\<forall>n. req_page request = PageInt n
                 \<and> max 1 ((int (length (index_post_list d now)) + 9) div 10) < n \<longrightarrow>
              page_number pg = max 1 ((int (length (index_post_list d now)) + 9) div 10)
              \<and> object_list pg
                  = drop (10 * ((length (index_post_list d now) - 1) div 10)) (index_post_list d now)
              \<and> (object_list pg = [] \<longleftrightarrow> index_post_list d now = []))" .
next
  assume c: "get_object_or_404 (filter category_is_published (categories d))
         (\<lambda>c. slug c = category_slug) = Inr c"
  then have "category_posts d now request category_slug =
          (case get_page (category_post_list d now c) 10 (req_page request) of
             Inl e \<Rightarrow> Inl e
           | Inr pg \<Rightarrow> Inr (Render ''blog/category.html'' (CategoryCtx c pg)))"
    by (simp add: category_posts_def)
  from page_of_view [OF this]
  show "\<exists>pg. category_posts d now request category_slug
                = Inr (Render ''blog/category.html'' (CategoryCtx c pg))
           \<and> length (object_list pg) \<le> 10
           \<and> paginator_num_pages pg
               = max 1 ((int (length (category_post_list d now c)) + 9) div 10)
           \<and> (\<forall>n. req_page request = PageInt n \<and> 1 \<le> n
                    \<and> n \<le> max 1 ((int (length (category_post_list d now c)) + 9) div 10) \<longrightarrow>
                 page_number pg = n
                 \<and> object_list pg = take 10 (drop (10 * nat (n - 1)) (category_post_list d now c)))
           \<and> (\<forall>n. req_page request = PageInt n
                    \<and> max 1 ((int (length (category_post_list d now c)) + 9) div 10) < n \<longrightarrow>
                 page_number pg = max 1 ((int (length (category_post_list d now c)) + 9) div 10)
                 \<and> object_list pg
                     = drop (10 * ((length (category_post_list d now c) - 1) div 10))
                         (category_post_list d now c)
                 \<and> (object_list pg = [] \<longleftrightarrow> category_post_list d now c = []))" .
next
  assume a: "get_object_or_404 (users d) (\<lambda>u. username u = name) = Inr a"
  then have "profile d now request name =
          (case get_page (profile_post_list d now request a) 10 (req_page request) of
             Inl e \<Rightarrow> Inl e
           | Inr pg \<Rightarrow> Inr (Render ''blog/profile.html'' (ProfileCtx a pg)))"
    by (simp add: profile_def)
  from page_of_view [OF this]
  show "\<exists>pg. profile d now request name = Inr (Render ''blog/profile.html'' (ProfileCtx a pg))
           \<and> length (object_list pg) \<le> 10
           \<and> paginator_num_pages pg
               = max 1 ((int (length (profile_post_list d now request a)) + 9) div 10)
           \<and> (\<forall>n. req_page request = PageInt n \<and> 1 \<le> n
                    \<and> n \<le> max 1 ((int (length (profile_post_list d now request a)) + 9) div 10)
                  \<longrightarrow>
                 page_number pg = n
                 \<and> object_list pg
                     = take 10 (drop (10 * nat (n - 1)) (profile_post_list d now request a)))
           \<and> (\<forall>n. req_page request = PageInt n
                    \<and> max 1 ((int (length (profile_post_list d now request a)) + 9) div 10) < n
                  \<longrightarrow>
                 page_number pg
                   = max 1 ((int (length (profile_post_list d now request a)) + 9) div 10)
                 \<and> object_list pg
                     = drop (10 * ((length (profile_post_list d now request a) - 1) div 10))
                         (profile_post_list d now request a)
                 \<and> (object_list pg = [] \<longleftrightarrow> profile_post_list d now request a = []))" .
qed

theorem pages_hold_at_most_ten_and_clamp_witness:
  "req_page ((request0 GET (Some alice))\<lparr> req_page := PageInt 5 \<rparr>) = PageInt 5
   \<and> get_object_or_404 (users db11) (\<lambda>u. username u = ''alice'') = Inr alice
   \<and> length (profile_post_list db11 100
        ((request0 GET (Some alice))\<lparr> req_page := PageInt 5 \<rparr>) alice) = 11
   \<and> max 1 ((int (length (profile_post_list db11 100
        ((request0 GET (Some alice))\<lparr> req_page := PageInt 5 \<rparr>) alice)) + 9) div 10) < 5
   \<and> (\<exists>pg. profile db11 100 ((request0 GET (Some alice))\<lparr> req_page := PageInt 5 \<rparr>) ''alice''
               = Inr (Render ''blog/profile.html'' (ProfileCtx alice pg))
          \<and> length (object_list pg) \<le> 10 \<and> page_number pg = 2
          \<and> paginator_num_pages pg = 2
          \<and> object_list pg = [(post_n 1, 0)])
   \<and> map post_id (listed_posts (profile db11 100
        ((request0 GET (Some alice))\<lparr> req_page := PageInt 5 \<rparr>) ''alice'')) = [1]
   \<and> length (listed_posts (profile db11 100 (request0 GET (Some alice)) ''alice'')) = 10"
proof -
  let ?r = "(request0 GET (Some alice))\<lparr> req_page := PageInt 5 \<rparr>"
  let ?L = "profile_post_list db11 100 ?r alice"
  have p: "req_page ?r = PageInt 5" by code_simp
  have g: "get_object_or_404 (users db11) (\<lambda>u. username u = ''alice'') = Inr alice"
    by code_simp
  have len: "length ?L = 11" by code_simp
  have m: "max 1 ((int (length ?L) + 9) div 10) = 2" unfolding len by simp
  have rows: "drop (10 * ((length ?L - 1) div 10)) ?L = [(post_n 1, 0)]" by code_simp
  have l: "map post_id (listed_posts (profile db11 100 ?r ''alice'')) = [1]" by code_simp
  have t: "length (listed_posts (profile db11 100 (request0 GET (Some alice)) ''alice'')) = 10"
    by code_simp
  note a = pages_hold_at_most_ten_and_clamp [where d = db11 and now = 100 and request = ?r
      and name = "''alice''" and a = alice and category_slug = "''travel''" and c = travel]
  from a g obtain pg where pg: "profile db11 100 ?r ''alice''
               = Inr (Render ''blog/profile.html'' (ProfileCtx alice pg))"
     "length (object_list pg) \<le> 10"
     "paginator_num_pages pg = max 1 ((int (length ?L) + 9) div 10)"
     "\<forall>n. req_page ?r = PageInt n \<and> max 1 ((int (length ?L) + 9) div 10) < n \<longrightarrow>
           page_number pg = max 1 ((int (length ?L) + 9) div 10)
           \<and> object_list pg = drop (10 * ((length ?L - 1) div 10)) ?L
           \<and> (object_list pg = [] \<longleftrightarrow> ?L = [])"
    by blast
  from pg(4) p m have "page_number pg = 2 \<and> object_list pg = [(post_n 1, 0)]"
    unfolding rows by simp
  with pg(1,2,3) m have "\<exists>pg. profile db11 100 ?r ''alice''
               = Inr (Render ''blog/profile.html'' (ProfileCtx alice pg))
          \<and> length (object_list pg) \<le> 10 \<and> page_number pg = 2
          \<and> paginator_num_pages pg = 2
          \<and> object_list pg = [(post_n 1, 0)]" by auto
  with p g len m l t show ?thesis by simp
qed

text \<open>
  C7, as the claim states it, fails for an empty listing: bob has no post that a visitor
  may see, so his profile has one page, and a visitor who asks for page 5 is given that
  page, which is empty.
\<close>

theorem empty_listing_last_page_is_empty:
  "req_page ((request0 GET None)\<lparr> req_page := PageInt 5 \<rparr>) = PageInt 5
   \<and> profile_post_list db0 100 ((request0 GET None)\<lparr> req_page := PageInt 5 \<rparr>) bob = []
   \<and> num_pages (profile_post_list db0 100 ((request0 GET None)\<lparr> req_page := PageInt 5 \<rparr>) bob) 10
       = 1
   \<and> profile db0 100 ((request0 GET None)\<lparr> req_page := PageInt 5 \<rparr>) ''bob''
       = Inr (Render ''blog/profile.html''
                (ProfileCtx bob \<lparr> page_number = 1, object_list = [], paginator_num_pages = 1 \<rparr>))"
  by code_simp

lemma get_page_of_member:
  assumes "x \<in> set xs"
  shows "\<exists>n pg. get_page xs 10 (PageInt n) = Inr pg \<and> x \<in> set (object_list pg)"
proof -
  from assms obtain i where i: "i < length xs" "xs ! i = x"
    by (auto simp: in_set_conv_nth)
  let ?k = "int (i div 10) + 1"
  note pg = nth_on_its_page [OF i(1)]
  have "get_page xs 10 (PageInt ?k) = paginator_page xs 10 ?k"
    using pg(1,2) by (simp add: get_page_def validate_number_def)
  also note paginator_page_valid [OF pg(1,2)]
  finally show ?thesis using pg(3) i(2) by fastforce
qed

lemma get_page_short:
  assumes "length xs \<le> 10"
  shows "\<exists>pg. get_page xs 10 number = Inr pg \<and> object_list pg = xs"
proof -
  have np: "num_pages xs 10 = 1" using assms
    by (simp add: num_pages_def Let_def max_def) presburger
  obtain k where k: "1 \<le> k" "k \<le> num_pages xs 10"
    "get_page xs 10 number = paginator_page xs 10 k"
    using get_page_number [of xs number] by blast
  with np have "k = 1" by simp
  with k paginator_page_valid [OF k(1,2)] assms show ?thesis by simp
qed

lemma profile_of_user:
  assumes "get_object_or_404 (users d) (\<lambda>x. username x = name) = Inr a"
    and "get_page (profile_post_list d now request a) 10 (req_page request) = Inr pg"
  shows "profile d now request name = Inr (Render ''blog/profile.html'' (ProfileCtx a pg))"
  using assms by (simp add: profile_def)

text \<open>
  C2, as the code has it.  For a post and a request of its author (signed in, a row of
  the user table), \<^verbatim>\<open>post_detail\<close> returns the post whatever its flags, its category's
  flag and its date, and the post is in the author's \<^verbatim>\<open>profile\<close> listing: some page
  number makes \<^verbatim>\<open>profile\<close> return a page with the post on it, and when the author has
  at most 10 posts every request does.
\<close>

theorem author_finds_own_posts:
  assumes "db_constraints d" and "p \<in> set (posts d)" and "u \<in> set (users d)"
    and "req_user request = Some u" and "post_author p = user_id u"
  shows "post_detail d now request (post_id p) =
           Inr (Render ''blog/detail.html''
                  (DetailCtx p (filter (\<lambda>c. comment_post c = post_id p) (comments d))
                     (Form NoInstance None [])))
       \<and> (\<exists>n. p \<in> set (listed_posts
                   (profile d now (request\<lparr> req_page := PageInt n \<rparr>) (username u))))
       \<and> (length (filter (\<lambda>q. post_author q = user_id u) (posts d)) \<le> 10 \<longrightarrow>
            p \<in> set (listed_posts (profile d now request (username u))))"
proof (intro conjI impI)
  let ?Q = "\<lambda>q. (is_published q \<and> category__is_published d q \<and> pub_date q \<le> now)
                \<or> user_is request (post_author q)"
  have "?Q p" using assms(4,5) by simp
  from get_by_key_in_filter [OF db_constraints_posts [OF assms(1)] assms(2), of ?Q, OF this]
  show "post_detail d now request (post_id p) =
           Inr (Render ''blog/detail.html''
                  (DetailCtx p (filter (\<lambda>c. comment_post c = post_id p) (comments d))
                     (Form NoInstance None [])))"
    using assms(4) by (simp add: post_detail_def is_authenticated_def)
next
  have gu: "get_object_or_404 (users d) (\<lambda>x. username x = username u) = Inr u"
    using get_by_key [OF db_constraints_usernames [OF assms(1)] assms(3)] .
  let ?L = "order_by_pub_date_desc (annotate d (filter (\<lambda>q. post_author q = user_id u) (posts d)))"
  have L: "profile_post_list d now r u = ?L" if "req_user r = Some u" for r
    using that by (simp add: profile_post_list_def)
  have pin: "p \<in> fst ` set ?L" using assms(2,5) by simp
  then obtain x where x: "x \<in> set ?L" "fst x = p" by blast
  {
    from get_page_of_member [OF x(1)] obtain n pg
      where pg: "get_page ?L 10 (PageInt n) = Inr pg" "x \<in> set (object_list pg)" by blast
    let ?r = "request\<lparr> req_page := PageInt n \<rparr>"
    have "profile d now ?r (username u) = Inr (Render ''blog/profile.html'' (ProfileCtx u pg))"
      using profile_of_user [OF gu, of now ?r pg] L [of ?r] pg(1) assms(4) by simp
    with pg(2) x(2) have "p \<in> set (listed_posts (profile d now ?r (username u)))" by force
    then show "\<exists>n. p \<in> set (listed_posts
                   (profile d now (request\<lparr> req_page := PageInt n \<rparr>) (username u)))" ..
  }
  {
    assume "length (filter (\<lambda>q. post_author q = user_id u) (posts d)) \<le> 10"
    then have "length ?L \<le> 10" by (simp add: annotate_def)
    from get_page_short [OF this, of "req_page request"] obtain pg
      where pg: "get_page ?L 10 (req_page request) = Inr pg" "object_list pg = ?L" by blast
    have "profile d now request (username u) = Inr (Render ''blog/profile.html'' (ProfileCtx u pg))"
      using profile_of_user [OF gu, of now request pg] L [of request] pg(1) assms(4) by simp
    moreover have "p \<in> fst ` set (object_list pg)" unfolding pg(2) by (rule pin)
    ultimately show "p \<in> set (listed_posts (profile d now request (username u)))" by simp
  }
qed

theorem author_finds_own_posts_witness:
  "db_constraints db0 \<and> post4 \<in> set (posts db0) \<and> alice \<in> set (users db0)
   \<and> post_author post4 = user_id alice \<and> pub_date post4 > 100
   \<and> post_detail db0 100 (request0 GET (Some alice)) (post_id post4) =
       Inr (Render ''blog/detail.html''
              (DetailCtx post4 (filter (\<lambda>c. comment_post c = post_id post4) (comments db0))
                 (Form NoInstance None [])))
   \<and> length (filter (\<lambda>q. post_author q = user_id alice) (posts db0)) \<le> 10
   \<and> post4 \<in> set (listed_posts (profile db0 100 (request0 GET (Some alice)) (username alice)))
   \<and> listed_posts (profile db0 100 (request0 GET (Some alice)) ''alice'') = [post4, post2, post1]"
proof -
  have h: "db_constraints db0" "post4 \<in> set (posts db0)" "alice \<in> set (users db0)"
    "req_user (request0 GET (Some alice)) = Some alice" "post_author post4 = user_id alice"
    by code_simp+
  have k: "pub_date post4 > 100"
    "length (filter (\<lambda>q. post_author q = user_id alice) (posts db0)) \<le> 10"
    "listed_posts (profile db0 100 (request0 GET (Some alice)) ''alice'') = [post4, post2, post1]"
    by code_simp+
  from author_finds_own_posts [OF h, of 100] h k show ?thesis by simp
qed

text \<open>
  C2, as the claim states it, fails for an author of eleven posts: the first page of the
  profile holds the ten newest, and the oldest post is not on it.
\<close>

theorem author_post_beyond_first_page:
  "post_n 1 \<in> set (posts db11) \<and> post_author (post_n 1) = user_id alice
   \<and> req_user (request0 GET (Some alice)) = Some alice
   \<and> map post_id (listed_posts (profile db11 100 (request0 GET (Some alice)) (username alice)))
       = [11, 10, 9, 8, 7, 6, 5, 4, 3, 2]
   \<and> post_n 1 \<notin> set (listed_posts (profile db11 100 (request0 GET (Some alice)) (username alice)))"
  by code_simp

lemma fold_max_ge: "a \<le> fold max xs (a::nat)"
proof (induction xs arbitrary: a)
  case Nil
  show ?case by simp
next
  case (Cons x xs)
  have "a \<le> max x a" by simp
  also have "\<dots> \<le> fold max xs (max x a)" by (rule Cons.IH)
  finally show ?case by simp
qed

lemma fold_max_upper: "x \<in> set xs \<Longrightarrow> x \<le> fold max xs (a::nat)"
proof (induction xs arbitrary: a)
  case Nil
  then show ?case by simp
next
  case (Cons y ys)
  show ?case
  proof (cases "x = y")
    case True
    have "x \<le> max y a" using True by simp
    also have "\<dots> \<le> fold max ys (max y a)" by (rule fold_max_ge)
    finally show ?thesis by simp
  next
    case False
    with Cons.prems have "x \<in> set ys" by simp
    from Cons.IH [OF this] show ?thesis by simp
  qed
qed

lemma fresh_pk_new: "fresh_pk pks \<notin> set pks"
proof
  assume "fresh_pk pks \<in> set pks"
  from fold_max_upper [OF this, of 0] show False by (simp add: fresh_pk_def)
qed

text \<open>
  C4, where the code departs from it.  An anonymous request to the post update or delete
  view is not sent to the login page: the views' own \<^verbatim>\<open>dispatch\<close> runs before the
  login check of \<^verbatim>\<open>LoginRequiredMixin\<close>, and answers with a redirect to the post's
  detail page (or with not-found when the post does not exist).
\<close>

theorem anonymous_post_update_delete_skip_login:
  "req_user (request0 GET None) = None
   \<and> PostUpdateView forms0 db0 (request0 GET None) 1 = (Inr (Redirect (ToPostDetail 1)), db0)
   \<and> PostDeleteView forms0 db0 (request0 POST None) 1 = (Inr (Redirect (ToPostDetail 1)), db0)
   \<and> PostUpdateView forms0 db0 (request0 GET None) 9 = (Inl Http404, db0)
   \<and> PostDeleteView forms0 db0 (request0 POST None) 9 = (Inl Http404, db0)"
  by code_simp

text \<open>No anonymous request to these two views is ever answered by the login redirect.\<close>

lemma anonymous_post_update_delete_never_login:
  assumes "req_user request = None"
  shows "fst (PostUpdateView F d request pk) \<noteq> Inr (Redirect LoginRequiredRedirect)"
    and "fst (PostDeleteView F d request pk) \<noteq> Inr (Redirect LoginRequiredRedirect)"
  using assms
  by (auto simp: PostUpdateView_def PostDeleteView_def split: sum.splits)

text \<open>The other protected views do send an anonymous request to the login page.\<close>

lemma anonymous_redirected_to_login:
  assumes "req_user request = None"
  shows "PostCreateView F d request = (Inr (Redirect LoginRequiredRedirect), d)"
    and "edit_profile F d request = (Inr (Redirect LoginRequiredRedirect), d)"
    and "add_comment F d now request pk = (Inr (Redirect LoginRequiredRedirect), d)"
    and "edit_comment F d request pk cid = (Inr (Redirect LoginRequiredRedirect), d)"
    and "delete_comment d request pk cid = (Inr (Redirect LoginRequiredRedirect), d)"
  using assms
  by (simp_all add: PostCreateView_def edit_profile_def add_comment_def edit_comment_def
      delete_comment_def login_redirect_def)

text \<open>
  C5, as the code has it.  A request whose form data the form rejects leaves the data
  store as it was, in all four views, whoever sends it and whichever post or comment it
  names.  On a POST, \<^verbatim>\<open>registration\<close>, \<^verbatim>\<open>edit_profile\<close> (signed in) and
  \<^verbatim>\<open>edit_comment\<close> (signed in as the comment's author, the comment being a comment
  of the post) render their form page again with the form's errors, which are not empty.
  \<^verbatim>\<open>add_comment\<close> never renders a page: for a signed-in user it redirects to the
  detail page of an existing post, and answers not-found when there is no such post.
\<close>

theorem invalid_form_leaves_store_unchanged:
  "(UserCreationForm_errors F d (req_POST request) \<noteq> [] \<longrightarrow>
      snd (registration F d request) = d)
   \<and> ((\<forall>v. req_user request = Some v \<longrightarrow> UserEditForm_errors F d v (req_POST request) \<noteq> []) \<longrightarrow>
      snd (edit_profile F d request) = d)
   \<and> (CommentForm_errors F (req_POST request) \<noteq> [] \<longrightarrow>
      snd (add_comment F d now request pk) = d
      \<and> snd (edit_comment F d request pk cid) = d)
   \<and> (req_method request = POST \<and> UserCreationForm_errors F d (req_POST request) \<noteq> [] \<longrightarrow>
         registration F d request =
           (Inr (Render ''registration/registration_form.html''
                   (FormCtx (Form NoInstance (Some (req_POST request))
                               (UserCreationForm_errors F d (req_POST request))))), d))
   \<and> (req_method request = POST \<and> req_user request = Some u
         \<and> UserEditForm_errors F d u (req_POST request) \<noteq> [] \<longrightarrow>
         (\<exists>i. edit_profile F d request =
            (Inr (Render ''blog/user.html''
                    (FormCtx (Form i (Some (req_POST request))
                                (UserEditForm_errors F d u (req_POST request))))), d)))
   \<and> (req_method request = POST \<and> req_user request = Some u \<and> db_constraints d
         \<and> p \<in> set (posts d) \<and> c \<in> set (comments d) \<and> comment_post c = post_id p
         \<and> comment_author c = user_id u \<and> CommentForm_errors F (req_POST request) \<noteq> [] \<longrightarrow>
         (\<exists>i c'. edit_comment F d request (post_id p) (comment_id c) =
            (Inr (Render ''blog/comment.html''
                    (CommentFormCtx (Form i (Some (req_POST request))
                                       (CommentForm_errors F (req_POST request))) c' p)), d)))
   \<and> (req_method request = POST \<and> req_user request = Some u \<and> db_constraints d
         \<and> p \<in> set (posts d) \<and> CommentForm_errors F (req_POST request) \<noteq> [] \<longrightarrow>
         add_comment F d now request (post_id p)
           = (Inr (Redirect (ToPostDetail (post_id p))), d))
   \<and> (req_method request = POST \<and> req_user request = Some u
         \<and> \<not> (\<exists>q \<in> set (posts d). post_id q = pk) \<longrightarrow>
         add_comment F d now request pk = (Inl Http404, d))
   \<and> (\<forall>t ctx. fst (add_comment F d now request pk) \<noteq> Inr (Render t ctx))"
proof (intro conjI impI allI)
  assume "UserCreationForm_errors F d (req_POST request) \<noteq> []"
  then show "snd (registration F d request) = d"
    by (simp add: registration_def Let_def)
next
  assume "\<forall>v. req_user request = Some v \<longrightarrow> UserEditForm_errors F d v (req_POST request) \<noteq> []"
  then show "snd (edit_profile F d request) = d"
    by (simp add: edit_profile_def login_redirect_def Let_def split: option.splits)
next
  assume "CommentForm_errors F (req_POST request) \<noteq> []"
  then show "snd (add_comment F d now request pk) = d"
    by (simp add: add_comment_def login_redirect_def split: option.splits sum.splits)
next
  assume "CommentForm_errors F (req_POST request) \<noteq> []"
  then show "snd (edit_comment F d request pk cid) = d"
    by (simp add: edit_comment_def login_redirect_def Let_def split: option.splits sum.splits)
next
  assume "req_method request = POST \<and> UserCreationForm_errors F d (req_POST request) \<noteq> []"
  then show "registration F d request =
              (Inr (Render ''registration/registration_form.html''
                      (FormCtx (Form NoInstance (Some (req_POST request))
                                  (UserCreationForm_errors F d (req_POST request))))), d)"
    by (simp add: registration_def Let_def)
next
  assume "req_method request = POST \<and> req_user request = Some u
         \<and> UserEditForm_errors F d u (req_POST request) \<noteq> []"
  then show "\<exists>i. edit_profile F d request =
               (Inr (Render ''blog/user.html''
                       (FormCtx (Form i (Some (req_POST request))
                                   (UserEditForm_errors F d u (req_POST request))))), d)"
    by (simp add: edit_profile_def Let_def)
next
  assume a: "req_method request = POST \<and> req_user request = Some u \<and> db_constraints d
         \<and> p \<in> set (posts d) \<and> c \<in> set (comments d) \<and> comment_post c = post_id p
         \<and> comment_author c = user_id u \<and> CommentForm_errors F (req_POST request) \<noteq> []"
  then have gp: "get_object_or_404 (posts d) (\<lambda>q. post_id q = post_id p) = Inr p"
    using get_by_key [OF db_constraints_posts, of d p] by simp
  from a have gc: "get_object_or_404 (comments d)
                (\<lambda>r. comment_id r = comment_id c \<and> comment_post r = post_id p) = Inr c"
    using get_by_key_and [OF db_constraints_comments, of d c "\<lambda>r. comment_post r = post_id p"]
    by simp
  show "\<exists>i c'. edit_comment F d request (post_id p) (comment_id c) =
               (Inr (Render ''blog/comment.html''
                       (CommentFormCtx (Form i (Some (req_POST request))
                                          (CommentForm_errors F (req_POST request))) c' p)), d)"
    using a gp gc by (simp add: edit_comment_def Let_def)
next
  assume a: "req_method request = POST \<and> req_user request = Some u \<and> db_constraints d
         \<and> p \<in> set (posts d) \<and> CommentForm_errors F (req_POST request) \<noteq> []"
  then have gp: "get_object_or_404 (posts d) (\<lambda>q. post_id q = post_id p) = Inr p"
    using get_by_key [OF db_constraints_posts, of d p] by simp
  show "add_comment F d now request (post_id p) = (Inr (Redirect (ToPostDetail (post_id p))), d)"
    using a gp by (simp add: add_comment_def)
next
  assume a: "req_method request = POST \<and> req_user request = Some u
         \<and> \<not> (\<exists>q \<in> set (posts d). post_id q = pk)"
  then have "get_object_or_404 (posts d) (\<lambda>q. post_id q = pk) = Inl Http404"
    using get_object_or_404_none [of "posts d" "\<lambda>q. post_id q = pk"] by blast
  with a show "add_comment F d now request pk = (Inl Http404, d)"
    by (simp add: add_comment_def)
next
  fix t ctx
  show "fst (add_comment F d now request pk) \<noteq> Inr (Render t ctx)"
    by (simp add: add_comment_def login_redirect_def split: option.splits sum.splits)
qed

theorem invalid_form_leaves_store_unchanged_witness:
  "req_method (request0 POST (Some alice)) = POST
   \<and> UserCreationForm_errors forms0 db0 (req_POST (request0 POST (Some alice))) \<noteq> []
   \<and> UserEditForm_errors forms0 db0 alice (req_POST (request0 POST (Some alice))) \<noteq> []
   \<and> CommentForm_errors forms0 (req_POST (request0 POST (Some alice))) \<noteq> []
   \<and> comment_author comment2 = user_id alice \<and> comment_post comment2 = post_id post1
   \<and> \<not> (\<exists>q \<in> set (posts db0). post_id q = 99)
   \<and> registration forms0 db0 (request0 POST (Some alice)) =
       (Inr (Render ''registration/registration_form.html''
               (FormCtx (Form NoInstance (Some []) [''username: required'']))), db0)
   \<and> edit_profile forms0 db0 (request0 POST (Some alice)) =
       (Inr (Render ''blog/user.html''
               (FormCtx (Form (UserInstance alice) (Some []) [''username: required'']))), db0)
   \<and> edit_comment forms0 db0 (request0 POST (Some alice)) 1 2 =
       (Inr (Render ''blog/comment.html''
               (CommentFormCtx (Form (CommentInstance comment2) (Some []) [''text: required''])
                  comment2 post1)), db0)
   \<and> add_comment forms0 db0 100 (request0 POST (Some alice)) (post_id post1) =
       (Inr (Redirect (ToPostDetail (post_id post1))), db0)
   \<and> add_comment forms0 db0 100 (request0 POST (Some alice)) 99 = (Inl Http404, db0)
   \<and> snd (edit_comment forms0 db0 (request0 POST (Some alice)) 99 2) = db0
   \<and> snd (edit_comment forms0 db0 (request0 POST (Some alice)) 1 1) = db0"
proof -
  let ?r = "request0 POST (Some alice)"
  have h: "req_method ?r = POST" by code_simp
  have k: "UserCreationForm_errors forms0 db0 (req_POST ?r) \<noteq> []"
    "UserEditForm_errors forms0 db0 alice (req_POST ?r) \<noteq> []"
    "CommentForm_errors forms0 (req_POST ?r) \<noteq> []"
    "comment_author comment2 = user_id alice" "comment_post comment2 = post_id post1"
    "req_user ?r = Some alice" "db_constraints db0" "post1 \<in> set (posts db0)"
    "comment2 \<in> set (comments db0)"
    by code_simp+
  have m: "\<not> (\<exists>q \<in> set (posts db0). post_id q = 99)" by code_simp
  have e: "registration forms0 db0 ?r =
       (Inr (Render ''registration/registration_form.html''
               (FormCtx (Form NoInstance (Some []) [''username: required'']))), db0)"
    "edit_profile forms0 db0 ?r =
       (Inr (Render ''blog/user.html''
               (FormCtx (Form (UserInstance alice) (Some []) [''username: required'']))), db0)"
    "edit_comment forms0 db0 ?r 1 2 =
       (Inr (Render ''blog/comment.html''
               (CommentFormCtx (Form (CommentInstance comment2) (Some []) [''text: required''])
                  comment2 post1)), db0)"
    by code_simp+
  from invalid_form_leaves_store_unchanged [where F = forms0 and d = db0 and u = alice
      and request = ?r and p = post1 and c = comment2 and now = 100 and pk = 99 and cid = 2] h k m
  have a: "add_comment forms0 db0 100 ?r (post_id post1) =
       (Inr (Redirect (ToPostDetail (post_id post1))), db0)"
    "add_comment forms0 db0 100 ?r 99 = (Inl Http404, db0)"
    "snd (edit_comment forms0 db0 ?r 99 2) = db0"
    by blast+
  from invalid_form_leaves_store_unchanged [where F = forms0 and d = db0
      and request = ?r and pk = 1 and cid = 1] k(3)
  have b: "snd (edit_comment forms0 db0 ?r 1 1) = db0" by blast
  from h k m e a b show ?thesis by simp
qed

text \<open>
  C5, as the claim states it, fails for \<^verbatim>\<open>add_comment\<close>: a signed-in user who posts an
  empty comment is redirected to the post; no form page with errors is rendered.
\<close>

theorem add_comment_invalid_redirects:
  "req_method (request0 POST (Some bob)) = POST
   \<and> CommentForm_errors forms0 (req_POST (request0 POST (Some bob))) = [''text: required'']
   \<and> add_comment forms0 db0 100 (request0 POST (Some bob)) 1
       = (Inr (Redirect (ToPostDetail 1)), db0)"
  by code_simp

text \<open>
  C6, as the code has it.  A GET request to \<^verbatim>\<open>add_comment\<close> never changes the data
  store: a signed-in user is answered method-not-allowed, an anonymous one is sent to the
  login page, because \<^verbatim>\<open>login_required\<close> wraps the method check.  A POST of a signed-in
  user with valid data for an existing post appends exactly one comment, with a new key,
  on that post and by that user, so the post's comment count goes up by one.
\<close>

theorem add_comment_get_rejected_post_adds_one:
  "(req_method request = GET \<longrightarrow>
      snd (add_comment F d now request pk) = d
      \<and> (req_user request = Some u \<longrightarrow>
           fst (add_comment F d now request pk) = Inr (HttpResponseNotAllowed [POST]))
      \<and> (req_user request = None \<longrightarrow>
           fst (add_comment F d now request pk) = Inr (Redirect LoginRequiredRedirect)))
   \<and> (req_method request = POST \<and> req_user request = Some u \<and> db_constraints d
        \<and> p \<in> set (posts d) \<and> CommentForm_errors F (req_POST request) = [] \<longrightarrow>
      (\<exists>c. add_comment F d now request (post_id p) =
              (Inr (Redirect (ToPostDetail (post_id p))), d\<lparr> comments := comments d @ [c] \<rparr>)
          \<and> comment_post c = post_id p \<and> comment_author c = user_id u
          \<and> comment_id c \<notin> set (map comment_id (comments d))
          \<and> comment_count (d\<lparr> comments := comments d @ [c] \<rparr>) (post_id p)
              = comment_count d (post_id p) + 1))"
proof (intro conjI impI)
  assume "req_method request = GET"
  then show "snd (add_comment F d now request pk) = d"
    by (cases "req_user request") (simp_all add: add_comment_def login_redirect_def)
next
  assume "req_method request = GET" "req_user request = Some u"
  then show "fst (add_comment F d now request pk) = Inr (HttpResponseNotAllowed [POST])"
    by (simp add: add_comment_def)
next
  assume "req_method request = GET" "req_user request = None"
  then show "fst (add_comment F d now request pk) = Inr (Redirect LoginRequiredRedirect)"
    by (simp add: add_comment_def login_redirect_def)
next
  assume a: "req_method request = POST \<and> req_user request = Some u \<and> db_constraints d
        \<and> p \<in> set (posts d) \<and> CommentForm_errors F (req_POST request) = []"
  then have gp: "get_object_or_404 (posts d) (\<lambda>q. post_id q = post_id p) = Inr p"
    using get_by_key [OF db_constraints_posts, of d p] by simp
  let ?c = "(CommentForm_construct F (req_POST request) None)
              \<lparr> comment_id := fresh_pk (map comment_id (comments d)),
                comment_author := user_id u,
                comment_post := post_id p,
                created_at := now \<rparr>"
  have "add_comment F d now request (post_id p) =
          (Inr (Redirect (ToPostDetail (post_id p))), d\<lparr> comments := comments d @ [?c] \<rparr>)"
    using a gp by (simp add: add_comment_def)
  moreover have "comment_post ?c = post_id p" "comment_author ?c = user_id u" by simp_all
  moreover have "comment_id ?c \<notin> set (map comment_id (comments d))"
    using fresh_pk_new [of "map comment_id (comments d)"] by simp
  moreover have "comment_count (d\<lparr> comments := comments d @ [?c] \<rparr>) (post_id p)
              = comment_count d (post_id p) + 1"
    by (simp add: comment_count_def)
  ultimately show "\<exists>c. add_comment F d now request (post_id p) =
              (Inr (Redirect (ToPostDetail (post_id p))), d\<lparr> comments := comments d @ [c] \<rparr>)
          \<and> comment_post c = post_id p \<and> comment_author c = user_id u
          \<and> comment_id c \<notin> set (map comment_id (comments d))
          \<and> comment_count (d\<lparr> comments := comments d @ [c] \<rparr>) (post_id p)
              = comment_count d (post_id p) + 1"
    by blast
qed

theorem add_comment_get_rejected_post_adds_one_witness:
  "req_method (request0 GET (Some bob)) = GET
   \<and> add_comment forms0 db0 100 (request0 GET (Some bob)) 1
       = (Inr (HttpResponseNotAllowed [POST]), db0)
   \<and> req_method ((request0 POST (Some bob))\<lparr> req_POST := [(''text'', ''hi'')] \<rparr>) = POST
   \<and> CommentForm_errors forms0
        (req_POST ((request0 POST (Some bob))\<lparr> req_POST := [(''text'', ''hi'')] \<rparr>)) = []
   \<and> (\<exists>c. add_comment forms0 db0 100
               ((request0 POST (Some bob))\<lparr> req_POST := [(''text'', ''hi'')] \<rparr>) (post_id post1)
             = (Inr (Redirect (ToPostDetail (post_id post1))),
                db0\<lparr> comments := comments db0 @ [c] \<rparr>)
          \<and> comment_post c = post_id post1 \<and> comment_author c = user_id bob
          \<and> comment_id c \<notin> set (map comment_id (comments db0))
          \<and> comment_count (db0\<lparr> comments := comments db0 @ [c] \<rparr>) (post_id post1)
              = comment_count db0 (post_id post1) + 1)
   \<and> comment_count db0 (post_id post1) = 2
   \<and> comment_count (snd (add_comment forms0 db0 100
        ((request0 POST (Some bob))\<lparr> req_POST := [(''text'', ''hi'')] \<rparr>) (post_id post1)))
        (post_id post1) = 3"
proof -
  let ?g = "request0 GET (Some bob)"
  let ?p = "(request0 POST (Some bob))\<lparr> req_POST := [(''text'', ''hi'')] \<rparr>"
  have g: "req_method ?g = GET" "req_user ?g = Some bob" by code_simp+
  have p: "req_method ?p = POST" "req_user ?p = Some bob" "db_constraints db0"
    "post1 \<in> set (posts db0)" "CommentForm_errors forms0 (req_POST ?p) = []"
    by code_simp+
  have k: "comment_count db0 (post_id post1) = 2"
    "comment_count (snd (add_comment forms0 db0 100 ?p (post_id post1))) (post_id post1) = 3"
    by code_simp+
  from add_comment_get_rejected_post_adds_one [where request = ?g and F = forms0 and d = db0
      and now = 100 and pk = 1 and u = bob and p = post1] g
  have "snd (add_comment forms0 db0 100 ?g 1) = db0"
    "fst (add_comment forms0 db0 100 ?g 1) = Inr (HttpResponseNotAllowed [POST])"
    by blast+
  then have a: "add_comment forms0 db0 100 ?g 1 = (Inr (HttpResponseNotAllowed [POST]), db0)"
    by (simp add: prod_eq_iff)
  from add_comment_get_rejected_post_adds_one [where request = ?p and F = forms0 and d = db0
      and now = 100 and pk = 1 and u = bob and p = post1] p
  have b: "\<exists>c. add_comment forms0 db0 100 ?p (post_id post1)
             = (Inr (Redirect (ToPostDetail (post_id post1))),
                db0\<lparr> comments := comments db0 @ [c] \<rparr>)
          \<and> comment_post c = post_id post1 \<and> comment_author c = user_id bob
          \<and> comment_id c \<notin> set (map comment_id (comments db0))
          \<and> comment_count (db0\<lparr> comments := comments db0 @ [c] \<rparr>) (post_id post1)
              = comment_count db0 (post_id post1) + 1"
    by blast
  from g(1) a p(1,5) b k show ?thesis by blast
qed

text \<open>
  C6, as the claim states it, fails for an anonymous GET: the answer is the redirect to
  the login page, not method-not-allowed.
\<close>

theorem add_comment_anonymous_get_goes_to_login:
  "req_method (request0 GET None) = GET \<and> req_user (request0 GET None) = None
   \<and> add_comment forms0 db0 100 (request0 GET None) 1
       = (Inr (Redirect LoginRequiredRedirect), db0)"
  by code_simp

end
